theory Spec2Isabelle
  imports Complex_Main
begin

section \<open>BaseGasOptimizer: gas pricing, buffered estimates, batching and statistics\<close>

text \<open>
  The class \<open>BaseGasOptimizer\<close> talks to an ethers (version 5) provider and works on
  \<open>BigNumber\<close> values. A \<open>BigNumber\<close> is an integer of any size and sign, so it is an
  \<open>int\<close> here. The congestion level and the options \<open>gasBuffer\<close> and \<open>batchSize\<close> are
  written as reals. Where the program computes with JavaScript numbers (\<open>gasBuffer * 100\<close>,
  the index of the batching loop, the sums, quotients and the percentage of the
  statistics) the model computes in IEEE doubles: every result is the exact result
  rounded to the nearest double. A rejected promise or a thrown exception is the \<open>Inl\<close>
  branch of a sum.
\<close>

subsection \<open>Values and errors\<close>

datatype error = RpcError string | NumericFault string | InvalidArgument string

datatype js_value = BigNumber int | Text string

type_synonym transaction = "string \<rightharpoonup> js_value"

text \<open>
  \<open>BigNumber.div\<close> throws the numeric fault \<open>division-by-zero\<close> when the divisor is
  zero, and otherwise divides as BN.js does: the quotient is rounded towards zero.
\<close>

definition bn_div :: "int \<Rightarrow> int \<Rightarrow> error + int" where
  "bn_div a b =
     (if b = 0 then Inl (NumericFault ''division-by-zero'')
      else Inr (sgn a * sgn b * (\<bar>a\<bar> div \<bar>b\<bar>)))"

text \<open>
  \<open>Array.prototype.slice(start, end)\<close>: a negative index counts from the end of the
  array, and every index is brought into the range from 0 to the length.
\<close>

definition relative_index :: "int \<Rightarrow> nat \<Rightarrow> nat" where
  "relative_index k len = (if k < 0 then nat (max (int len + k) 0) else min (nat k) len)"

definition slice :: "'a list \<Rightarrow> int \<Rightarrow> int \<Rightarrow> 'a list" where
  "slice xs start end =
     (let lo = relative_index start (length xs);
          hi = relative_index end (length xs)
      in take (hi - lo) (drop lo xs))"

text \<open>\<open>slice(start)\<close> with no second argument runs to the end of the array.\<close>

definition slice_from :: "'a list \<Rightarrow> int \<Rightarrow> 'a list" where
  "slice_from xs start = drop (relative_index start (length xs)) xs"

subsection \<open>JavaScript numbers\<close>

text \<open>
  A JavaScript number is an IEEE double: a finite value, an infinity or \<open>NaN\<close>. A finite
  double is held as the real number it stands for; the sign of a zero is not held.

  \<open>to_double\<close> rounds a real to the nearest double, ties to the even mantissa.
  \<open>binary_exponent x\<close> is, for \<open>x > 0\<close>, the \<open>e\<close> with \<open>2^e \<le> x < 2^(e+1)\<close>, found from
  the length in bits of the whole part of \<open>x\<close> or of \<open>1 / x\<close>. A double has 53
  significant bits, so the doubles around \<open>x\<close> are the multiples of \<open>2^(e-52)\<close>; below
  \<open>2^(-1022)\<close> the step stays \<open>2^(-1074)\<close>. \<open>fl\<close> is the result of an operation whose
  exact value is \<open>x\<close>: the nearest double, or an infinity from \<open>2^1024\<close> on.
\<close>

fun bit_length :: "nat \<Rightarrow> nat" where
  "bit_length n = (if n = 0 then 0 else Suc (bit_length (n div 2)))"

declare bit_length.simps [simp del]

definition binary_exponent :: "real \<Rightarrow> int" where
  "binary_exponent x =
     (if 1 \<le> x then int (bit_length (nat \<lfloor>x\<rfloor>)) - 1
      else - int (bit_length (nat (\<lceil>1 / x\<rceil> - 1))))"

definition times_pow2 :: "real \<Rightarrow> int \<Rightarrow> real" where
  "times_pow2 x k = (if 0 \<le> k then x * 2 ^ nat k else x / 2 ^ nat (- k))"

definition round_half_even :: "real \<Rightarrow> int" where
  "round_half_even y =
     (let f = \<lfloor>y\<rfloor> in
      if y - of_int f < 1 / 2 then f
      else if 1 / 2 < y - of_int f then f + 1
      else if even f then f else f + 1)"

definition to_double :: "real \<Rightarrow> real" where
  "to_double x =
     (if x = 0 then 0
      else
        (let e = max (binary_exponent \<bar>x\<bar>) (- 1022);
             m = round_half_even (times_pow2 \<bar>x\<bar> (52 - e))
         in sgn x * times_pow2 (of_int m) (e - 52)))"

datatype number = Finite real | PosInfinity | NegInfinity | NaN

definition fl :: "real \<Rightarrow> number" where
  "fl x =
     (let d = to_double x in
      if 2 ^ 1024 \<le> d then PosInfinity
      else if d \<le> - (2 ^ 1024) then NegInfinity
      else Finite d)"

text \<open>
  The operators \<open>+\<close>, \<open>-\<close>, \<open>*\<close> and \<open>/\<close> on numbers. A zero divisor is taken as \<open>+0\<close>:
  the divisors of this program are sums started at \<open>0\<close> and array lengths.
\<close>

fun js_negate :: "number \<Rightarrow> number" where
  "js_negate (Finite a) = Finite (- a)"
| "js_negate PosInfinity = NegInfinity"
| "js_negate NegInfinity = PosInfinity"
| "js_negate NaN = NaN"

fun js_add :: "number \<Rightarrow> number \<Rightarrow> number" where
  "js_add (Finite a) (Finite b) = fl (a + b)"
| "js_add NaN y = NaN"
| "js_add x NaN = NaN"
| "js_add PosInfinity NegInfinity = NaN"
| "js_add NegInfinity PosInfinity = NaN"
| "js_add PosInfinity y = PosInfinity"
| "js_add x PosInfinity = PosInfinity"
| "js_add NegInfinity y = NegInfinity"
| "js_add x NegInfinity = NegInfinity"

definition js_sub :: "number \<Rightarrow> number \<Rightarrow> number" where
  "js_sub x y = js_add x (js_negate y)"

fun js_mul :: "number \<Rightarrow> number \<Rightarrow> number" where
  "js_mul (Finite a) (Finite b) = fl (a * b)"
| "js_mul NaN y = NaN"
| "js_mul x NaN = NaN"
| "js_mul (Finite a) y = (if a = 0 then NaN else if 0 < a then y else js_negate y)"
| "js_mul x (Finite b) = (if b = 0 then NaN else if 0 < b then x else js_negate x)"
| "js_mul PosInfinity y = y"
| "js_mul NegInfinity y = js_negate y"

fun js_div :: "number \<Rightarrow> number \<Rightarrow> number" where
  "js_div (Finite a) (Finite b) =
     (if b = 0 then (if a = 0 then NaN else if 0 < a then PosInfinity else NegInfinity)
      else fl (a / b))"
| "js_div NaN y = NaN"
| "js_div x NaN = NaN"
| "js_div (Finite a) y = Finite 0"
| "js_div x (Finite b) = (if b < 0 then js_negate x else x)"
| "js_div x y = NaN"

text \<open>
  The comparison \<open><\<close> of two numbers, and the whole number that \<open>slice\<close> makes of an
  index (ToIntegerOrInfinity): \<open>NaN\<close> is 0 and a fraction is cut off towards 0. An
  infinite index lies outside the array, as does the length of the array with the same
  sign, which stands for it here.
\<close>

fun js_less :: "number \<Rightarrow> number \<Rightarrow> bool" where
  "js_less (Finite a) (Finite b) = (a < b)"
| "js_less NaN y = False"
| "js_less x NaN = False"
| "js_less NegInfinity y = (y \<noteq> NegInfinity)"
| "js_less x PosInfinity = (x \<noteq> PosInfinity)"
| "js_less x y = False"

definition to_index :: "nat \<Rightarrow> number \<Rightarrow> int" where
  "to_index len x =
     (case x of
        Finite a \<Rightarrow> (if 0 \<le> a then \<lfloor>a\<rfloor> else \<lceil>a\<rceil>)
      | PosInfinity \<Rightarrow> int len
      | NegInfinity \<Rightarrow> - int len
      | NaN \<Rightarrow> 0)"

text \<open>\<open>Math.floor\<close>, and \<open>parseInt\<close> of the decimal text of an integer.\<close>

fun js_floor :: "number \<Rightarrow> number" where
  "js_floor (Finite a) = Finite (of_int \<lfloor>a\<rfloor>)"
| "js_floor x = x"

definition parseInt :: "int \<Rightarrow> number" where
  "parseInt n = fl (of_int n)"

text \<open>
  \<open>BigNumber.from\<close> of a number, as \<open>mul\<close> calls it on its argument: a number with a
  fraction is the fault \<open>underflow\<close>, a number at or beyond \<open>2^53 - 1\<close> (also an infinity)
  the fault \<open>overflow\<close>, and \<open>NaN\<close> is not the text of an integer.
\<close>

fun bn_from_number :: "number \<Rightarrow> error + int" where
  "bn_from_number (Finite a) =
     (if a \<noteq> of_int \<lfloor>a\<rfloor> then Inl (NumericFault ''underflow'')
      else if 2 ^ 53 - 1 \<le> a \<or> a \<le> - (2 ^ 53 - 1) then Inl (NumericFault ''overflow'')
      else Inr \<lfloor>a\<rfloor>)"
| "bn_from_number NaN = Inl (InvalidArgument ''invalid BigNumber string'')"
| "bn_from_number x = Inl (NumericFault ''overflow'')"

text \<open>
  \<open>x.toFixed(2)\<close>. For a finite \<open>x\<close> below \<open>10^21\<close> in size: the sign, then the integer
  \<open>n\<close> nearest to \<open>x * 100\<close> (the larger one of two) in decimal digits, filled with
  zeros to three digits, with a point before the last two. From \<open>10^21\<close> on the text is
  that of \<open>Number.prototype.toString\<close>, which is the host's and is the parameter
  \<open>toString\<close> here.
\<close>

fun decimal :: "nat \<Rightarrow> string" where
  "decimal n =
     (if n < 10 then [''0123456789'' ! n]
      else decimal (n div 10) @ [''0123456789'' ! (n mod 10)])"

declare decimal.simps [simp del]

definition toFixed2 :: "(real \<Rightarrow> string) \<Rightarrow> number \<Rightarrow> string" where
  "toFixed2 toString x =
     (case x of
        NaN \<Rightarrow> ''NaN''
      | PosInfinity \<Rightarrow> ''Infinity''
      | NegInfinity \<Rightarrow> ''-Infinity''
      | Finite v \<Rightarrow>
          (let s = (if v < 0 then ''-'' else '''') in
           if 10 ^ 21 \<le> \<bar>v\<bar> then s @ toString \<bar>v\<bar>
           else
             (let m = decimal (nat \<lfloor>\<bar>v\<bar> * 100 + 1 / 2\<rfloor>);
                  m' = replicate (3 - length m) (CHR ''0'') @ m
              in s @ take (length m' - 2) m' @ ''.'' @ drop (length m' - 2) m')))"

subsection \<open>The provider\<close>

text \<open>
  The provider is the outside world. One value of \<open>rpc\<close> holds what the provider answers
  to the calls that one operation of the optimizer makes: \<open>getGasPrice\<close> is the answer to
  the call in the \<open>try\<close> block of \<open>getOptimalGasPrice\<close>, \<open>getGasPriceAgain\<close> the answer
  to the second call, made in its \<open>catch\<close> block, \<open>getBlock\<close> the answer to
  \<open>getBlock('latest')\<close>, \<open>estimateGas\<close> the answer to the gas simulation of a
  transaction, and \<open>now\<close> the reading of \<open>Date.now()\<close>. The two price answers are
  separate fields because a provider may fail once and answer the next time, or fail
  both times.
\<close>

record block =
  gasUsed :: int
  gasLimit :: int

record rpc =
  getGasPrice :: "error + int"
  getGasPriceAgain :: "error + int"
  getBlock :: "error + block"
  estimateGas :: "transaction \<Rightarrow> error + int"
  now :: nat

subsection \<open>The optimizer object\<close>

text \<open>
  \<open>maxGasPrice\<close> is a \<open>BigNumber\<close>; \<open>gasBuffer\<close> and \<open>batchSize\<close> are numbers of any
  sign, with or without a fraction.
\<close>

record gas_options =
  maxGasPrice :: int
  gasBuffer :: real
  batchSize :: real

text \<open>The \<open>options\<close> argument of the constructor: every key may be missing.\<close>

record given_options =
  givenMaxGasPrice :: "int option"
  givenGasBuffer :: "real option"
  givenBatchSize :: "real option"

record history_entry =
  timestamp :: nat
  estimated :: int
  buffered :: int

record optimizer =
  options :: gas_options
  gasHistory :: "history_entry list"

text \<open>
  The constructor (lines 11 to 20). \<open>parseUnits('20', 'gwei')\<close> is \<open>20 * 10^9\<close>. Each
  default is written \<open>options.key || default\<close>, but the object ends with
  \<open>...options\<close>, which writes every key the caller gave over the line above it. So a
  key that is given keeps the caller's value, whatever it is, and a missing key gets the
  default. The body has no \<open>throw\<close>: the result is always an \<open>Inr\<close>.
\<close>

definition new_BaseGasOptimizer :: "given_options \<Rightarrow> error + optimizer" where
  "new_BaseGasOptimizer given =
     Inr \<lparr>options =
            \<lparr>maxGasPrice = (case givenMaxGasPrice given of None \<Rightarrow> 20 * 10 ^ 9 | Some v \<Rightarrow> v),
             gasBuffer = (case givenGasBuffer given of None \<Rightarrow> 11 / 10 | Some v \<Rightarrow> v),
             batchSize = (case givenBatchSize given of None \<Rightarrow> 10 | Some v \<Rightarrow> v)\<rparr>,
          gasHistory = []\<rparr>"

subsection \<open>getNetworkCongestion and getOptimalGasPrice\<close>

text \<open>
  Lines 107 to 116. Both the failure of \<open>getBlock\<close> and the fault of \<open>div\<close> happen
  inside the \<open>try\<close>, and the \<open>catch\<close> answers \<open>0.5\<close>. \<open>parseFloat\<close> of the decimal
  text of an integer is that integer.
\<close>

definition getNetworkCongestion :: "rpc \<Rightarrow> real" where
  "getNetworkCongestion p =
     (case getBlock p of
        Inl error \<Rightarrow> 1 / 2
      | Inr latestBlock \<Rightarrow>
          (case bn_div (gasUsed latestBlock) (gasLimit latestBlock) of
             Inl error \<Rightarrow> 1 / 2
           | Inr gasUsedRatio \<Rightarrow> real_of_int gasUsedRatio))"

text \<open>Lines 32 to 37: the value of the local variable \<open>adjustedGasPrice\<close>.\<close>

definition adjustedGasPrice :: "int \<Rightarrow> real \<Rightarrow> error + int" where
  "adjustedGasPrice gasPrice networkCongestion =
     (if networkCongestion > 8 / 10 then bn_div (gasPrice * 120) 100
      else if networkCongestion < 3 / 10 then bn_div (gasPrice * 90) 100
      else Inr gasPrice)"

text \<open>Lines 40 to 42: the cap.\<close>

definition capped :: "int \<Rightarrow> int \<Rightarrow> int" where
  "capped adjusted maxPrice = (if adjusted > maxPrice then maxPrice else adjusted)"

text \<open>
  Lines 26 to 47. The inner \<open>case\<close> is the \<open>try\<close> block; an error anywhere in it
  reaches the \<open>catch\<close> block, which returns the promise of a second \<open>getGasPrice\<close> call
  as it is.
\<close>

definition getOptimalGasPrice :: "optimizer \<Rightarrow> rpc \<Rightarrow> error + int" where
  "getOptimalGasPrice this p =
     (case (case getGasPrice p of
              Inl error \<Rightarrow> Inl error
            | Inr gasPrice \<Rightarrow>
                (case adjustedGasPrice gasPrice (getNetworkCongestion p) of
                   Inl error \<Rightarrow> Inl error
                 | Inr adjusted \<Rightarrow> Inr (capped adjusted (maxGasPrice (options this))))) of
        Inl error \<Rightarrow> getGasPriceAgain p
      | Inr price \<Rightarrow> Inr price)"

subsection \<open>estimateGasWithBuffer\<close>

text \<open>
  Lines 54 to 70. The result is the returned value or the rethrown error, together with
  the optimizer after the call: the history grows only when the estimate and the
  arithmetic have succeeded. The history keeps the two numbers as decimal text and
  \<open>getGasStats\<close> reads them back with \<open>parseInt\<close>; the entry holds the integers.

  The option \<open>gasBuffer\<close> is written as a real and held as the double nearest to it, as
  a literal such as \<open>1.1\<close> is. \<open>gasBuffer * 100\<close> is a product of doubles, \<open>Math.floor\<close>
  gives a whole number, and \<open>mul\<close> turns it into a \<open>BigNumber\<close> or throws.
\<close>

definition estimateGasWithBuffer ::
  "optimizer \<Rightarrow> rpc \<Rightarrow> transaction \<Rightarrow> (error + int) \<times> optimizer" where
  "estimateGasWithBuffer this p transaction =
     (case estimateGas p transaction of
        Inl error \<Rightarrow> (Inl error, this)
      | Inr gasEstimate \<Rightarrow>
          (case bn_from_number
                  (js_floor (js_mul (fl (gasBuffer (options this))) (Finite 100))) of
             Inl error \<Rightarrow> (Inl error, this)
           | Inr percent \<Rightarrow>
               (case bn_div (gasEstimate * percent) 100 of
                  Inl error \<Rightarrow> (Inl error, this)
                | Inr bufferedGas \<Rightarrow>
                    (Inr bufferedGas,
                     this\<lparr>gasHistory := gasHistory this @
                       [\<lparr>timestamp = now p, estimated = gasEstimate,
                         buffered = bufferedGas\<rparr>]\<rparr>))))"

subsection \<open>batchTransactions\<close>

text \<open>
  Lines 78 to 81, the loop that cuts the input into batches: \<open>i\<close> starts at 0 and grows
  by \<open>batchSize\<close> (the argument \<open>step\<close>) while it is below the length. \<open>i\<close> and
  \<open>batchSize\<close> are numbers, so \<open>i + batchSize\<close> is a sum of doubles, and \<open>slice\<close> makes
  its two arguments whole. When the loop never ends the value is \<open>None\<close>: a host stops
  such a run when the batches no longer fit into its memory, and nothing is returned
  either way. The option \<open>batchSize\<close> is written as a real and held as the double
  nearest to it.
\<close>

partial_function (option) makeBatches ::
  "number \<Rightarrow> 'a list \<Rightarrow> number \<Rightarrow> 'a list list \<Rightarrow> 'a list list option" where
  "makeBatches step transactions i batches =
     (if js_less i (Finite (real (length transactions)))
      then makeBatches step transactions (js_add i step)
             (batches @
                [slice transactions (to_index (length transactions) i)
                   (to_index (length transactions) (js_add i step))])
      else Some batches)"

text \<open>
  Lines 85 to 94, the function mapped over a batch. Every transaction of the input
  comes with the answers of the provider to the calls made for it. When the price
  cannot be had, the estimate is not asked for.
\<close>

definition annotate ::
  "optimizer \<Rightarrow> transaction \<times> rpc \<Rightarrow> (error + transaction) \<times> optimizer" where
  "annotate this txp =
     (case txp of (tx, p) \<Rightarrow>
        (case getOptimalGasPrice this p of
           Inl error \<Rightarrow> (Inl error, this)
         | Inr price \<Rightarrow>
             (case estimateGasWithBuffer this p tx of
                (Inl error, this') \<Rightarrow> (Inl error, this')
              | (Inr limit, this') \<Rightarrow>
                  (Inr (tx(''gasPrice'' \<mapsto> BigNumber price,
                           ''gasLimit'' \<mapsto> BigNumber limit)), this'))))"

text \<open>
  \<open>batch.map\<close> starts one promise per member of the batch. The members run
  concurrently; their answers are already given, so the order in which they finish
  decides only the order of the new history entries, taken here in the order of the
  batch.
\<close>

fun runBatch ::
  "optimizer \<Rightarrow> (transaction \<times> rpc) list \<Rightarrow> (error + transaction) list \<times> optimizer" where
  "runBatch this [] = ([], this)"
| "runBatch this (tx # batch) =
     (case annotate this tx of (r, this1) \<Rightarrow>
        (case runBatch this1 batch of (rs, this2) \<Rightarrow> (r # rs, this2)))"

text \<open>
  \<open>Promise.all\<close>: the values in the order of the promises when all succeed. When some
  are rejected it rejects with the error of the one rejected first in time. Which one
  that is the answers do not say: \<open>earliest\<close> is told the positions of the rejected
  promises and names one of them (a name that is none of them is read as the first
  position).
\<close>

definition rejected :: "(error + 'a) list \<Rightarrow> nat list" where
  "rejected promises = filter (\<lambda>k. isl (promises ! k)) [0..<length promises]"

definition promise_all :: "(nat list \<Rightarrow> nat) \<Rightarrow> (error + 'a) list \<Rightarrow> error + 'a list" where
  "promise_all earliest promises =
     (case rejected promises of
        [] \<Rightarrow> Inr (map projr promises)
      | k # ks \<Rightarrow>
          Inl (projl (promises !
            (if earliest (k # ks) \<in> set (k # ks) then earliest (k # ks) else k))))"

text \<open>
  Lines 83 to 100: one batch after the other, appending to \<open>results\<close>. The promises of
  one batch are in flight together, and the next batch is not begun before
  \<open>Promise.all\<close> has returned. \<open>rounds\<close> keeps this: for every \<open>Promise.all\<close> awaited so
  far, the transactions whose promises it joined. With an error the optimizer returned
  is the one after all members of the failing batch have settled.
\<close>

fun processBatches ::
  "(nat list \<Rightarrow> nat) \<Rightarrow> optimizer \<Rightarrow> (transaction \<times> rpc) list list \<Rightarrow>
     transaction list \<Rightarrow> transaction list list \<Rightarrow>
     (error + transaction list) \<times> optimizer \<times> transaction list list" where
  "processBatches earliest this [] results rounds = (Inr results, this, rounds)"
| "processBatches earliest this (batch # batches) results rounds =
     (case runBatch this batch of (batchPromises, this') \<Rightarrow>
        (case promise_all earliest batchPromises of
           Inl error \<Rightarrow> (Inl error, this', rounds @ [map fst batch])
         | Inr batchResults \<Rightarrow>
             processBatches earliest this' batches (results @ batchResults)
               (rounds @ [map fst batch])))"

definition batchTransactions ::
  "(nat list \<Rightarrow> nat) \<Rightarrow> optimizer \<Rightarrow> (transaction \<times> rpc) list \<Rightarrow>
     ((error + transaction list) \<times> optimizer \<times> transaction list list) option" where
  "batchTransactions earliest this transactions =
     (case makeBatches (fl (batchSize (options this))) transactions (Finite 0) [] of
        None \<Rightarrow> None
      | Some batches \<Rightarrow> Some (processBatches earliest this batches [] []))"

subsection \<open>getGasStats and clearHistory\<close>

text \<open>
  Lines 141 to 158. \<open>recent.reduce\<close> is a left fold from 0 that adds \<open>parseInt\<close> of
  each entry; the two averages, their difference, the quotient and the product with 100
  are operations on numbers; \<open>bufferEfficiency\<close> is the text \<open>toFixed(2)\<close> of the result
  followed by a percent sign.
\<close>

record gas_stats =
  totalTransactions :: nat
  recentAvgEstimated :: number
  recentAvgBuffered :: number
  bufferEfficiency :: string

datatype stats_result = Message string | Stats gas_stats

definition getGasStats :: "(real \<Rightarrow> string) \<Rightarrow> optimizer \<Rightarrow> stats_result" where
  "getGasStats toString this =
     (if length (gasHistory this) = 0 then Message ''No gas history available''
      else
        (let recent = slice_from (gasHistory this) (- 10);
             avgEstimated =
               js_div
                 (foldl (\<lambda>sum entry. js_add sum (parseInt (estimated entry))) (Finite 0) recent)
                 (Finite (real (length recent)));
             avgBuffered =
               js_div
                 (foldl (\<lambda>sum entry. js_add sum (parseInt (buffered entry))) (Finite 0) recent)
                 (Finite (real (length recent)))
         in Stats \<lparr>totalTransactions = length (gasHistory this),
                   recentAvgEstimated = js_floor avgEstimated,
                   recentAvgBuffered = js_floor avgBuffered,
                   bufferEfficiency =
                     toFixed2 toString
                       (js_mul (js_div (js_sub avgBuffered avgEstimated) avgEstimated)
                          (Finite 100)) @ ''%''\<rparr>))"

definition clearHistory :: "optimizer \<Rightarrow> optimizer" where
  "clearHistory this = this\<lparr>gasHistory := []\<rparr>"

subsection \<open>The statistics in the words of the specification\<close>

text \<open>
  The specification speaks of the mean of a field over the sampled window, the last 10
  records or all of them when there are fewer. These two definitions say that, for the
  comparison with \<open>getGasStats\<close>.
\<close>

definition recent_window :: "'a list \<Rightarrow> 'a list" where
  "recent_window history = drop (length history - 10) history"

definition mean_of :: "('a \<Rightarrow> int) \<Rightarrow> 'a list \<Rightarrow> real" where
  "mean_of field records = real_of_int (sum_list (map field records)) / real (length records)"

section \<open>Properties\<close>

subsection \<open>Rounding to doubles\<close>

text \<open>The definitions by which a number is computed at a concrete input.\<close>

lemmas number_eval =
  fl_def to_double_def binary_exponent_def bit_length.simps times_pow2_def
  round_half_even_def Let_def

text \<open>
  The length in bits is right, and so is the binary exponent taken from it.
\<close>

lemma bit_length_le: "n < 2 ^ k \<Longrightarrow> bit_length n \<le> k"
proof (induction k arbitrary: n)
  case 0
  then show ?case by (simp add: bit_length.simps)
next
  case (Suc k)
  show ?case
  proof (cases "n = 0")
    case True
    then show ?thesis by (simp add: bit_length.simps)
  next
    case False
    from Suc.prems have "n div 2 < 2 ^ k" by simp
    from Suc.IH [OF this] show ?thesis
      using False by (subst bit_length.simps) simp
  qed
qed

lemma binary_exponent_le:
  assumes "0 < x" and "x < 2 ^ k" and "1 \<le> k"
  shows "binary_exponent x \<le> int k - 1"
proof (cases "1 \<le> x")
  case True
  have "real_of_int \<lfloor>x\<rfloor> < 2 ^ k" using assms(2) by linarith
  then have "\<lfloor>x\<rfloor> < 2 ^ k" by (metis of_int_less_iff of_int_numeral of_int_power)
  moreover have "0 \<le> \<lfloor>x\<rfloor>" using True by simp
  ultimately have "nat \<lfloor>x\<rfloor> < 2 ^ k" by (simp add: nat_less_iff)
  then have "bit_length (nat \<lfloor>x\<rfloor>) \<le> k" by (rule bit_length_le)
  then show ?thesis using True by (simp add: binary_exponent_def)
next
  case False
  then show ?thesis using assms(3) by (simp add: binary_exponent_def)
qed

lemma round_half_even_ge: "of_int K \<le> y \<Longrightarrow> K \<le> round_half_even y"
proof -
  assume "of_int K \<le> y"
  then have "K \<le> \<lfloor>y\<rfloor>" by (simp add: le_floor_iff)
  then show ?thesis by (simp add: round_half_even_def Let_def)
qed

lemma round_half_even_le: "y \<le> of_int K \<Longrightarrow> round_half_even y \<le> K"
proof (cases "y = of_int K")
  case True
  then show ?thesis by (simp add: round_half_even_def Let_def)
next
  case False
  assume "y \<le> of_int K"
  with False have "y < of_int K" by simp
  then have "\<lfloor>y\<rfloor> < K" by (simp add: floor_less_iff)
  then show ?thesis by (simp add: round_half_even_def Let_def)
qed

lemma to_double_pos:
  assumes "0 < x" and "max (binary_exponent x) (- 1022) \<le> 52"
  shows "to_double x =
    of_int (round_half_even (x * 2 ^ nat (52 - max (binary_exponent x) (- 1022))))
      / 2 ^ nat (52 - max (binary_exponent x) (- 1022))"
proof -
  let ?e = "max (binary_exponent x) (- 1022)"
  have up: "times_pow2 x (52 - ?e) = x * 2 ^ nat (52 - ?e)"
    using assms(2) by (simp add: times_pow2_def)
  have down: "times_pow2 y (?e - 52) = y / 2 ^ nat (52 - ?e)" for y
  proof (cases "?e = 52")
    case True
    then show ?thesis by (simp add: times_pow2_def)
  next
    case False
    with assms(2) have "?e < 52" by simp
    then show ?thesis by (simp add: times_pow2_def)
  qed
  show ?thesis
    using assms(1) by (simp add: to_double_def Let_def up down)
qed

lemma grid_scaled:
  fixes c :: real
  assumes "c * 2 ^ j \<in> \<int>" and "j \<le> k"
  shows "\<exists>K :: int. c * 2 ^ k = of_int K"
proof -
  from assms(1) obtain J :: int where J: "c * 2 ^ j = of_int J" by (auto elim: Ints_cases)
  have "c * 2 ^ k = c * 2 ^ j * 2 ^ (k - j)"
    using assms(2) by (simp add: power_add [symmetric])
  also have "\<dots> = of_int (J * 2 ^ (k - j))" by (simp add: J)
  finally show ?thesis by blast
qed

lemma to_double_ge:
  assumes "0 < x" and "x < 2 ^ (53 - j)" and "j \<le> 52" and "c * 2 ^ j \<in> \<int>" and "c \<le> x"
  shows "c \<le> to_double x"
proof -
  let ?e = "max (binary_exponent x) (- 1022)"
  let ?k = "nat (52 - ?e)"
  have e: "?e \<le> 52 - int j"
    using binary_exponent_le [OF assms(1,2)] assms(3) by simp
  then have jk: "j \<le> ?k" by linarith
  from grid_scaled [OF assms(4) jk] obtain K :: int where K: "c * 2 ^ ?k = of_int K" by blast
  have "of_int K \<le> x * 2 ^ ?k" using assms(5) by (simp flip: K)
  then have "K \<le> round_half_even (x * 2 ^ ?k)" by (rule round_half_even_ge)
  then have "real_of_int K / 2 ^ ?k \<le> of_int (round_half_even (x * 2 ^ ?k)) / 2 ^ ?k"
    by (simp add: divide_right_mono)
  moreover have "real_of_int K / 2 ^ ?k = c" by (simp flip: K)
  moreover have "?e \<le> 52" using e by simp
  ultimately show ?thesis using to_double_pos [OF assms(1)] by simp
qed

lemma to_double_le:
  assumes "0 < x" and "x < 2 ^ (53 - j)" and "j \<le> 52" and "c * 2 ^ j \<in> \<int>" and "x \<le> c"
  shows "to_double x \<le> c"
proof -
  let ?e = "max (binary_exponent x) (- 1022)"
  let ?k = "nat (52 - ?e)"
  have e: "?e \<le> 52 - int j"
    using binary_exponent_le [OF assms(1,2)] assms(3) by simp
  then have jk: "j \<le> ?k" by linarith
  from grid_scaled [OF assms(4) jk] obtain K :: int where K: "c * 2 ^ ?k = of_int K" by blast
  have "x * 2 ^ ?k \<le> of_int K" using assms(5) by (simp flip: K)
  then have "round_half_even (x * 2 ^ ?k) \<le> K" by (rule round_half_even_le)
  then have "of_int (round_half_even (x * 2 ^ ?k)) / 2 ^ ?k \<le> real_of_int K / 2 ^ ?k"
    by (simp add: divide_right_mono)
  moreover have "real_of_int K / 2 ^ ?k = c" by (simp flip: K)
  moreover have "?e \<le> 52" using e by simp
  ultimately show ?thesis using to_double_pos [OF assms(1)] by simp
qed

lemma to_double_exact:
  assumes "0 \<le> x" and "x < 2 ^ (53 - j)" and "j \<le> 52" and "x * 2 ^ j \<in> \<int>"
  shows "to_double x = x"
proof (cases "x = 0")
  case True
  then show ?thesis by (simp add: to_double_def)
next
  case False
  with assms(1) have "0 < x" by simp
  from to_double_ge [OF this assms(2,3,4)] to_double_le [OF this assms(2,3,4)]
  show ?thesis by simp
qed


lemma bit_length_pos: "0 < n \<Longrightarrow> 0 < bit_length n"
  by (subst bit_length.simps) simp

lemma bit_length_bounds: "0 < n \<Longrightarrow> 2 ^ (bit_length n - 1) \<le> n \<and> n < 2 ^ bit_length n"
proof (induction n rule: bit_length.induct)
  case (1 n)
  show ?case
  proof (cases "n div 2 = 0")
    case True
    with "1.prems" have "n = 1" by (simp add: div_eq_0_iff) 
    then show ?thesis by (simp add: bit_length.simps)
  next
    case False
    then have pos: "0 < n div 2" by simp
    have step: "bit_length n = Suc (bit_length (n div 2))"
      using "1.prems" by (subst bit_length.simps) simp
    from "1.IH" [OF _ pos] "1.prems"
    have ih: "2 ^ (bit_length (n div 2) - 1) \<le> n div 2" "n div 2 < 2 ^ bit_length (n div 2)"
      by simp_all
    have b: "0 < bit_length (n div 2)" by (rule bit_length_pos [OF pos])
    then have "(2::nat) ^ bit_length (n div 2) = 2 * 2 ^ (bit_length (n div 2) - 1)"
      by (cases "bit_length (n div 2)") simp_all
    with ih(1) have lower: "2 ^ bit_length (n div 2) \<le> n" by linarith
    from ih(2) have upper: "n < 2 * 2 ^ bit_length (n div 2)" by linarith
    show ?thesis using lower upper by (simp add: step)
  qed
qed

lemma binary_exponent_bounds:
  assumes "0 < x"
  shows "times_pow2 1 (binary_exponent x) \<le> x \<and> x < times_pow2 1 (binary_exponent x + 1)"
proof (cases "1 \<le> x")
  case True
  let ?n = "nat \<lfloor>x\<rfloor>"
  have n: "0 < ?n" using True by simp
  have nx: "real ?n \<le> x" "x < real ?n + 1" using True by linarith+
  from bit_length_bounds [OF n] have
    lo: "2 ^ (bit_length ?n - 1) \<le> ?n" and hi: "?n < 2 ^ bit_length ?n" by simp_all
  have b: "0 < bit_length ?n" by (rule bit_length_pos [OF n])
  have e: "binary_exponent x = int (bit_length ?n) - 1"
    using True by (simp add: binary_exponent_def)
  have "(2::real) ^ (bit_length ?n - 1) \<le> real ?n"
    using lo by (metis of_nat_le_iff of_nat_numeral of_nat_power)
  then have l: "2 ^ (bit_length ?n - 1) \<le> x" using nx(1) by linarith
  have "Suc ?n \<le> 2 ^ bit_length ?n" using hi by (rule Suc_leI)
  then have "real (Suc ?n) \<le> (2::real) ^ bit_length ?n"
    by (metis of_nat_le_iff of_nat_numeral of_nat_power)
  then have u: "x < 2 ^ bit_length ?n" using nx(2) by simp
  have "nat (int (bit_length ?n) - 1) = bit_length ?n - 1" by simp
  then show ?thesis using l u b by (simp add: e times_pow2_def)
next
  case False
  let ?t = "1 / x"
  let ?n = "nat (\<lceil>?t\<rceil> - 1)"
  from False assms have t: "1 < ?t" by simp
  then have c: "2 \<le> \<lceil>?t\<rceil>" by linarith
  then have n: "0 < ?n" by simp
  have nt: "real ?n < ?t" "?t \<le> real ?n + 1" using c by linarith+
  from bit_length_bounds [OF n] have
    lo: "2 ^ (bit_length ?n - 1) \<le> ?n" and hi: "?n < 2 ^ bit_length ?n" by simp_all
  have b: "0 < bit_length ?n" by (rule bit_length_pos [OF n])
  have e: "binary_exponent x = - int (bit_length ?n)"
    using False by (simp add: binary_exponent_def)
  have "Suc ?n \<le> 2 ^ bit_length ?n" using hi by (rule Suc_leI)
  then have "real (Suc ?n) \<le> (2::real) ^ bit_length ?n"
    by (metis of_nat_le_iff of_nat_numeral of_nat_power)
  then have "?t \<le> 2 ^ bit_length ?n" using nt(2) by simp
  then have l: "1 / 2 ^ bit_length ?n \<le> x"
    using assms by (simp add: field_simps)
  have "(2::real) ^ (bit_length ?n - 1) \<le> real ?n"
    using lo by (metis of_nat_le_iff of_nat_numeral of_nat_power)
  then have "2 ^ (bit_length ?n - 1) < ?t" using nt(1) by linarith
  then have u: "x < 1 / 2 ^ (bit_length ?n - 1)"
    using assms by (simp add: field_simps)
  have k: "nat (int (bit_length ?n) - 1) = bit_length ?n - 1" by simp
  show ?thesis
  proof (cases "bit_length ?n = 1")
    case True
    then show ?thesis using l u by (simp add: e times_pow2_def)
  next
    case False
    with b have "1 < bit_length ?n" by simp
    then show ?thesis using l u k by (simp add: e times_pow2_def)
  qed
qed

text \<open>An operation whose rounded result is below \<open>2^53\<close> in size gives a finite number.\<close>

lemma fl_finite:
  assumes "- (2 ^ 53) \<le> to_double x" and "to_double x \<le> 2 ^ 53"
  shows "fl x = Finite (to_double x)"
proof -
  have "(2::real) ^ 53 < 2 ^ 1024" by simp
  with assms show ?thesis by (simp add: fl_def Let_def)
qed

lemma fl_exact:
  assumes "0 \<le> x" and "x < 2 ^ (53 - j)" and "j \<le> 52" and "x * 2 ^ j \<in> \<int>"
  shows "fl x = Finite x"
proof -
  have td: "to_double x = x" by (rule to_double_exact [OF assms])
  have "(2::real) ^ (53 - j) \<le> 2 ^ 53" by (rule power_increasing) simp_all
  with assms(1,2) show ?thesis by (simp add: fl_finite td)
qed

lemma parseInt_exact:
  assumes "0 \<le> n" and "n < 2 ^ 53"
  shows "parseInt n = Finite (of_int n)"
proof -
  have "real_of_int n < 2 ^ 53"
    using assms(2) by (metis of_int_less_iff of_int_numeral of_int_power)
  then have "fl (of_int n) = Finite (of_int n)"
    using assms(1) by (intro fl_exact [where j = 0]) simp_all
  then show ?thesis by (simp add: parseInt_def)
qed

subsection \<open>Arithmetic of BigNumber division\<close>

lemma bn_div_nonneg: "0 \<le> a \<Longrightarrow> 0 < b \<Longrightarrow> bn_div a b = Inr (a div b)"
  by (simp add: bn_div_def sgn_if)

lemma bn_div_100: "bn_div a 100 = Inr (sgn a * (\<bar>a\<bar> div 100))"
  by (simp add: bn_div_def)

lemma floor_percent:
  fixes k :: int
  shows "\<lfloor>\<bar>real_of_int p\<bar> * real_of_int k / 100\<rfloor> = (\<bar>p\<bar> * k) div 100"
proof -
  have "\<bar>real_of_int p\<bar> * real_of_int k / 100 = real_of_int (\<bar>p\<bar> * k) / real_of_int 100"
    by simp
  then show ?thesis
    using floor_divide_of_int_eq [of "\<bar>p\<bar> * k" 100, where ?'a = real] by simp
qed

lemma trunc_120: "sgn p * (\<bar>p * 120\<bar> div 100) = sgn p * \<lfloor>\<bar>real_of_int p\<bar> * 120 / 100\<rfloor>"
  using floor_percent [of p 120] by (simp add: abs_mult)

lemma trunc_90: "sgn p * (\<bar>p * 90\<bar> div 100) = sgn p * \<lfloor>\<bar>real_of_int p\<bar> * 90 / 100\<rfloor>"
  using floor_percent [of p 90] by (simp add: abs_mult)


subsection \<open>The adjusted price\<close>

lemma adjusted_nonneg:
  assumes "0 \<le> gp"
  shows "\<exists>a. adjustedGasPrice gp c = Inr a \<and> 0 \<le> a"
  using assms by (simp add: adjustedGasPrice_def bn_div_nonneg pos_imp_zdiv_nonneg_iff)

lemma adjusted_high:
  "8 / 10 < c \<Longrightarrow> adjustedGasPrice p c = Inr (sgn p * \<lfloor>\<bar>real_of_int p\<bar> * 120 / 100\<rfloor>)"
  by (simp add: adjustedGasPrice_def bn_div_100 sgn_mult trunc_120)

lemma adjusted_low:
  "c < 3 / 10 \<Longrightarrow> adjustedGasPrice p c = Inr (sgn p * \<lfloor>\<bar>real_of_int p\<bar> * 90 / 100\<rfloor>)"
  by (simp add: adjustedGasPrice_def bn_div_100 sgn_mult trunc_90)

lemma adjusted_medium:
  "3 / 10 \<le> c \<Longrightarrow> c \<le> 8 / 10 \<Longrightarrow> adjustedGasPrice p c = Inr p"
  by (simp add: adjustedGasPrice_def)

lemma adjusted_high_ge:
  "0 \<le> p \<Longrightarrow> 8 / 10 < c \<Longrightarrow> \<exists>a. adjustedGasPrice p c = Inr a \<and> p \<le> a"
  by (simp add: adjustedGasPrice_def bn_div_nonneg)

lemma adjusted_low_le:
  "0 \<le> p \<Longrightarrow> c < 3 / 10 \<Longrightarrow> \<exists>a. adjustedGasPrice p c = Inr a \<and> a \<le> p"
  by (simp add: adjustedGasPrice_def bn_div_nonneg)

lemma bn_div_100_exact: "bn_div (100 * q) 100 = Inr q"
  by (simp add: bn_div_def abs_mult sgn_mult mult_sgn_abs)

lemma adjusted_high_exact:
  assumes "8 / 10 < c" and "p mod 5 = 0"
  shows "\<exists>a. adjustedGasPrice p c = Inr a \<and> real_of_int a = real_of_int p * (120 / 100)"
proof -
  from assms(2) obtain k where k: "p = 5 * k" by (auto simp add: mod_eq_0_iff_dvd)
  have e: "p * 120 = 100 * (6 * k)" by (simp add: k)
  have "bn_div (p * 120) 100 = Inr (6 * k)"
    unfolding e by (rule bn_div_100_exact)
  then have "adjustedGasPrice p c = Inr (6 * k)"
    using assms(1) by (simp add: adjustedGasPrice_def)
  moreover have "real_of_int (6 * k) = real_of_int p * (120 / 100)" by (simp add: k)
  ultimately show ?thesis by blast
qed

lemma adjusted_low_exact:
  assumes "c < 3 / 10" and "p mod 10 = 0"
  shows "\<exists>a. adjustedGasPrice p c = Inr a \<and> real_of_int a = real_of_int p * (90 / 100)"
proof -
  from assms(2) obtain k where k: "p = 10 * k" by (auto simp add: mod_eq_0_iff_dvd)
  have e: "p * 90 = 100 * (9 * k)" by (simp add: k)
  have "bn_div (p * 90) 100 = Inr (9 * k)"
    unfolding e by (rule bn_div_100_exact)
  then have "adjustedGasPrice p c = Inr (9 * k)"
    using assms(1) by (simp add: adjustedGasPrice_def)
  moreover have "real_of_int (9 * k) = real_of_int p * (90 / 100)" by (simp add: k)
  ultimately show ?thesis by blast
qed

text \<open>
  The path through the \<open>try\<close> block keeps the cap. When the first price fetch succeeds
  with a price that is not negative and \<open>maxGasPrice\<close> is not negative,
  \<open>getOptimalGasPrice\<close> returns a price between 0 and \<open>maxGasPrice\<close>, whatever the
  block fetch does.
\<close>

theorem getOptimalGasPrice_within_cap:
  assumes "getGasPrice p = Inr gp" and "0 \<le> gp" and "0 \<le> maxGasPrice (options this)"
  shows "\<exists>v. getOptimalGasPrice this p = Inr v \<and> 0 \<le> v \<and> v \<le> maxGasPrice (options this)"
proof -
  obtain a where a: "adjustedGasPrice gp (getNetworkCongestion p) = Inr a" "0 \<le> a"
    using adjusted_nonneg [OF assms(2)] by blast
  have "getOptimalGasPrice this p = Inr (capped a (maxGasPrice (options this)))"
    by (simp add: getOptimalGasPrice_def assms(1) a(1))
  moreover have "0 \<le> capped a (maxGasPrice (options this))"
    using a(2) assms(3) by (simp add: capped_def)
  moreover have "capped a (maxGasPrice (options this)) \<le> maxGasPrice (options this)"
    by (simp add: capped_def)
  ultimately show ?thesis by blast
qed

text \<open>
  The theorem at a full block, a base price of 10 and a cap of 11: the price is
  raised to 12 and capped at 11.
\<close>

theorem getOptimalGasPrice_within_cap_witness:
  "getGasPrice
     \<lparr>getGasPrice = Inr 10, getGasPriceAgain = Inr 10,
      getBlock = Inr \<lparr>gasUsed = 30000000, gasLimit = 30000000\<rparr>,
      estimateGas = (\<lambda>tx. Inr 21000), now = 0\<rparr> = Inr 10
   \<and> (0 :: int) \<le> 10
   \<and> 0 \<le> maxGasPrice (options
        \<lparr>options = \<lparr>maxGasPrice = 11, gasBuffer = 11 / 10, batchSize = 10\<rparr>,
         gasHistory = []\<rparr>)
   \<and> (\<exists>v. getOptimalGasPrice
        \<lparr>options = \<lparr>maxGasPrice = 11, gasBuffer = 11 / 10, batchSize = 10\<rparr>,
         gasHistory = []\<rparr>
        \<lparr>getGasPrice = Inr 10, getGasPriceAgain = Inr 10,
         getBlock = Inr \<lparr>gasUsed = 30000000, gasLimit = 30000000\<rparr>,
         estimateGas = (\<lambda>tx. Inr 21000), now = 0\<rparr> = Inr v
      \<and> 0 \<le> v
      \<and> v \<le> maxGasPrice (options
          \<lparr>options = \<lparr>maxGasPrice = 11, gasBuffer = 11 / 10, batchSize = 10\<rparr>,
           gasHistory = []\<rparr>))"
  using getOptimalGasPrice_within_cap
    [of "\<lparr>getGasPrice = Inr 10, getGasPriceAgain = Inr 10,
          getBlock = Inr \<lparr>gasUsed = 30000000, gasLimit = 30000000\<rparr>,
          estimateGas = (\<lambda>tx. Inr 21000), now = 0\<rparr>"
        10
        "\<lparr>options = \<lparr>maxGasPrice = 11, gasBuffer = 11 / 10, batchSize = 10\<rparr>,
          gasHistory = []\<rparr>"]
  by simp

text \<open>
  Claim C1 says that on every path, also the one taken when the provider fails, the
  price returned by \<open>getOptimalGasPrice\<close> is at most \<open>maxGasPrice\<close> and at least 0.
  The \<open>try\<close> block caps the price (lines 39 to 42); the \<open>catch\<close> block (line 45) does
  not. When the first price fetch fails, the second answers 30 gwei and \<open>maxGasPrice\<close>
  is 20 gwei, the 30 gwei are returned.
\<close>

theorem getOptimalGasPrice_fallback_above_cap:
  "getOptimalGasPrice
     \<lparr>options = \<lparr>maxGasPrice = 20000000000, gasBuffer = 11 / 10, batchSize = 10\<rparr>,
      gasHistory = []\<rparr>
     \<lparr>getGasPrice = Inl (RpcError ''timeout''), getGasPriceAgain = Inr 30000000000,
      getBlock = Inr \<lparr>gasUsed = 15000000, gasLimit = 30000000\<rparr>,
      estimateGas = (\<lambda>tx. Inr 21000), now = 0\<rparr> = Inr 30000000000
   \<and> \<not> 30000000000 \<le> maxGasPrice (options
        \<lparr>options = \<lparr>maxGasPrice = 20000000000, gasBuffer = 11 / 10, batchSize = 10\<rparr>,
         gasHistory = []\<rparr>)"
  by (simp add: getOptimalGasPrice_def)

text \<open>
  Claim C2, as amended. For every base price \<open>p\<close> and every congestion ratio \<open>c\<close>, the
  adjusted price before the cap is \<open>p * 1.20\<close> rounded towards zero to a whole unit
  when \<open>c > 0.8\<close>, \<open>p * 0.90\<close> rounded towards zero when \<open>c < 0.3\<close>, and \<open>p\<close> itself
  when \<open>0.3 \<le> c \<le> 0.8\<close>. It is \<open>p * 1.20\<close> exactly when \<open>p\<close> is a multiple of 5 and
  \<open>p * 0.90\<close> exactly when \<open>p\<close> is a multiple of 10. For \<open>p \<ge> 0\<close> it is at least \<open>p\<close>
  in the high tier and at most \<open>p\<close> in the low tier. With base price 10, congestion 0.9
  and a cap of 11 the adjusted price is 12 and the capped result 11.
\<close>

theorem adjustedGasPrice_tiers:
  "(8 / 10 < c \<longrightarrow>
      adjustedGasPrice p c = Inr (sgn p * \<lfloor>\<bar>real_of_int p\<bar> * 120 / 100\<rfloor>))
   \<and> (c < 3 / 10 \<longrightarrow>
      adjustedGasPrice p c = Inr (sgn p * \<lfloor>\<bar>real_of_int p\<bar> * 90 / 100\<rfloor>))
   \<and> (3 / 10 \<le> c \<and> c \<le> 8 / 10 \<longrightarrow> adjustedGasPrice p c = Inr p)
   \<and> (8 / 10 < c \<and> p mod 5 = 0 \<longrightarrow>
      (\<exists>a. adjustedGasPrice p c = Inr a \<and> real_of_int a = real_of_int p * (120 / 100)))
   \<and> (c < 3 / 10 \<and> p mod 10 = 0 \<longrightarrow>
      (\<exists>a. adjustedGasPrice p c = Inr a \<and> real_of_int a = real_of_int p * (90 / 100)))
   \<and> (0 \<le> p \<and> 8 / 10 < c \<longrightarrow> (\<exists>a. adjustedGasPrice p c = Inr a \<and> p \<le> a))
   \<and> (0 \<le> p \<and> c < 3 / 10 \<longrightarrow> (\<exists>a. adjustedGasPrice p c = Inr a \<and> a \<le> p))
   \<and> adjustedGasPrice 10 (9 / 10) = Inr 12
   \<and> capped 12 11 = 11"
proof (intro conjI impI)
  assume "8 / 10 < c"
  then show "adjustedGasPrice p c = Inr (sgn p * \<lfloor>\<bar>real_of_int p\<bar> * 120 / 100\<rfloor>)"
    by (rule adjusted_high)
next
  assume "c < 3 / 10"
  then show "adjustedGasPrice p c = Inr (sgn p * \<lfloor>\<bar>real_of_int p\<bar> * 90 / 100\<rfloor>)"
    by (rule adjusted_low)
next
  assume "3 / 10 \<le> c \<and> c \<le> 8 / 10"
  then show "adjustedGasPrice p c = Inr p"
    by (simp add: adjusted_medium)
next
  assume h: "8 / 10 < c \<and> p mod 5 = 0"
  show "\<exists>a. adjustedGasPrice p c = Inr a \<and> real_of_int a = real_of_int p * (120 / 100)"
    by (rule adjusted_high_exact) (insert h, simp_all)
next
  assume h: "c < 3 / 10 \<and> p mod 10 = 0"
  show "\<exists>a. adjustedGasPrice p c = Inr a \<and> real_of_int a = real_of_int p * (90 / 100)"
    by (rule adjusted_low_exact) (insert h, simp_all)
next
  assume h: "0 \<le> p \<and> 8 / 10 < c"
  show "\<exists>a. adjustedGasPrice p c = Inr a \<and> p \<le> a"
    by (rule adjusted_high_ge) (insert h, simp_all)
next
  assume h: "0 \<le> p \<and> c < 3 / 10"
  show "\<exists>a. adjustedGasPrice p c = Inr a \<and> a \<le> p"
    by (rule adjusted_low_le) (insert h, simp_all)
next
  show "adjustedGasPrice 10 (9 / 10) = Inr 12"
    by (simp add: adjustedGasPrice_def bn_div_def)
next
  show "capped 12 11 = 11"
    by (simp add: capped_def)
qed

text \<open>The three tiers at a base price of 1000: 1200, 900 and 1000.\<close>

theorem adjustedGasPrice_tiers_witness:
  "(8 / 10 :: real) < 9 / 10 \<and> (1000 :: int) mod 5 = 0 \<and> (0 :: int) \<le> 1000
   \<and> adjustedGasPrice 1000 (9 / 10) = Inr 1200
   \<and> (1 / 10 :: real) < 3 / 10 \<and> (1000 :: int) mod 10 = 0
   \<and> adjustedGasPrice 1000 (1 / 10) = Inr 900
   \<and> (3 / 10 :: real) \<le> 1 / 2 \<and> (1 / 2 :: real) \<le> 8 / 10
   \<and> adjustedGasPrice 1000 (1 / 2) = Inr 1000"
  using adjustedGasPrice_tiers [of "9 / 10" 1000] adjustedGasPrice_tiers [of "1 / 10" 1000]
    adjustedGasPrice_tiers [of "1 / 2" 1000]
  by simp

text \<open>
  Claim C2 as stated fails where the product is not whole: at a base price of 1 and
  congestion 0.9 the adjusted price is 1, not 1.2.
\<close>

theorem adjustedGasPrice_not_exact:
  "(8 / 10 :: real) < 9 / 10
   \<and> adjustedGasPrice 1 (9 / 10) = Inr 1
   \<and> real_of_int 1 \<noteq> real_of_int 1 * (120 / 100)"
  by (simp add: adjustedGasPrice_def bn_div_def)

subsection \<open>The buffered estimate\<close>










text \<open>
  Claim C7. When the gas simulation of the provider rejects the transaction,
  \<open>estimateGasWithBuffer\<close> rethrows that same error: no buffered estimate is returned,
  the optimizer and its history are as before, and the provider is not asked again.
\<close>

theorem estimateGasWithBuffer_rethrows:
  assumes "estimateGas p tx = Inl e"
  shows "estimateGasWithBuffer this p tx = (Inl e, this)"
  by (simp add: estimateGasWithBuffer_def assms)

text \<open>A transaction that would revert.\<close>

theorem estimateGasWithBuffer_rethrows_witness:
  "estimateGas
     \<lparr>getGasPrice = Inr 1000000000, getGasPriceAgain = Inr 1000000000,
      getBlock = Inr \<lparr>gasUsed = 15000000, gasLimit = 30000000\<rparr>,
      estimateGas = (\<lambda>tx. Inl (RpcError ''execution reverted'')), now = 0\<rparr>
     [''to'' \<mapsto> Text ''0x01''] = Inl (RpcError ''execution reverted'')
   \<and> estimateGasWithBuffer
        \<lparr>options = \<lparr>maxGasPrice = 20000000000, gasBuffer = 11 / 10, batchSize = 10\<rparr>,
         gasHistory = []\<rparr>
        \<lparr>getGasPrice = Inr 1000000000, getGasPriceAgain = Inr 1000000000,
         getBlock = Inr \<lparr>gasUsed = 15000000, gasLimit = 30000000\<rparr>,
         estimateGas = (\<lambda>tx. Inl (RpcError ''execution reverted'')), now = 0\<rparr>
        [''to'' \<mapsto> Text ''0x01''] =
      (Inl (RpcError ''execution reverted''),
       \<lparr>options = \<lparr>maxGasPrice = 20000000000, gasBuffer = 11 / 10, batchSize = 10\<rparr>,
        gasHistory = []\<rparr>)"
  using estimateGasWithBuffer_rethrows
    [of "\<lparr>getGasPrice = Inr 1000000000, getGasPriceAgain = Inr 1000000000,
          getBlock = Inr \<lparr>gasUsed = 15000000, gasLimit = 30000000\<rparr>,
          estimateGas = (\<lambda>tx. Inl (RpcError ''execution reverted'')), now = 0\<rparr>"
        "[''to'' \<mapsto> Text ''0x01'']" "RpcError ''execution reverted''"
        "\<lparr>options = \<lparr>maxGasPrice = 20000000000, gasBuffer = 11 / 10, batchSize = 10\<rparr>,
          gasHistory = []\<rparr>"]
  by simp

subsection \<open>Congestion\<close>

lemma congestion_cases:
  "getNetworkCongestion p = 1 / 2 \<or> (\<exists>k :: int. getNetworkCongestion p = real_of_int k)"
  by (simp add: getNetworkCongestion_def split: sum.splits)

lemma integral_not_medium:
  fixes k :: int
  shows "8 / 10 < real_of_int k \<or> real_of_int k < 3 / 10"
proof (cases "1 \<le> k")
  case True
  then have "1 \<le> real_of_int k" by simp
  then show ?thesis by simp
next
  case False
  then have "k \<le> 0" by simp
  then have "real_of_int k \<le> 0" by simp
  then show ?thesis by simp
qed

lemma congestion_success:
  assumes "getBlock p = Inr b" and "gasLimit b \<noteq> 0"
  shows "getNetworkCongestion p =
    real_of_int (sgn (gasUsed b) * sgn (gasLimit b) * (\<bar>gasUsed b\<bar> div \<bar>gasLimit b\<bar>))"
  by (simp add: getNetworkCongestion_def bn_div_def assms)

text \<open>
  Claim C5. When the latest block has a \<open>gasLimit\<close> of zero, the division fault is
  caught inside \<open>getNetworkCongestion\<close>, which answers 0.5; the medium tier applies, so
  the adjusted price is the base price, and \<open>getOptimalGasPrice\<close> returns the base
  price with no tier adjustment (under the cap \<open>maxGasPrice\<close>, as on every path through
  the \<open>try\<close> block).
\<close>

theorem zero_gasLimit_medium_tier:
  assumes "getBlock p = Inr b" and "gasLimit b = 0" and "getGasPrice p = Inr gp"
  shows "getNetworkCongestion p = 1 / 2
     \<and> adjustedGasPrice gp (getNetworkCongestion p) = Inr gp
     \<and> getOptimalGasPrice this p = Inr (capped gp (maxGasPrice (options this)))
     \<and> (gp \<le> maxGasPrice (options this) \<longrightarrow> getOptimalGasPrice this p = Inr gp)"
  by (simp add: getNetworkCongestion_def bn_div_def adjustedGasPrice_def
      getOptimalGasPrice_def capped_def assms)

text \<open>An empty block with a zero limit, a base price of 1 gwei under a cap of 20 gwei.\<close>

theorem zero_gasLimit_medium_tier_witness:
  "getBlock
     \<lparr>getGasPrice = Inr 1000000000, getGasPriceAgain = Inr 1000000000,
      getBlock = Inr \<lparr>gasUsed = 0, gasLimit = 0\<rparr>,
      estimateGas = (\<lambda>tx. Inr 21000), now = 0\<rparr> = Inr \<lparr>gasUsed = 0, gasLimit = 0\<rparr>
   \<and> gasLimit \<lparr>gasUsed = 0, gasLimit = 0\<rparr> = 0
   \<and> getNetworkCongestion
        \<lparr>getGasPrice = Inr 1000000000, getGasPriceAgain = Inr 1000000000,
         getBlock = Inr \<lparr>gasUsed = 0, gasLimit = 0\<rparr>,
         estimateGas = (\<lambda>tx. Inr 21000), now = 0\<rparr> = 1 / 2
   \<and> getOptimalGasPrice
        \<lparr>options = \<lparr>maxGasPrice = 20000000000, gasBuffer = 11 / 10, batchSize = 10\<rparr>,
         gasHistory = []\<rparr>
        \<lparr>getGasPrice = Inr 1000000000, getGasPriceAgain = Inr 1000000000,
         getBlock = Inr \<lparr>gasUsed = 0, gasLimit = 0\<rparr>,
         estimateGas = (\<lambda>tx. Inr 21000), now = 0\<rparr> = Inr 1000000000"
  using zero_gasLimit_medium_tier
    [of "\<lparr>getGasPrice = Inr 1000000000, getGasPriceAgain = Inr 1000000000,
          getBlock = Inr \<lparr>gasUsed = 0, gasLimit = 0\<rparr>,
          estimateGas = (\<lambda>tx. Inr 21000), now = 0\<rparr>"
        "\<lparr>gasUsed = 0, gasLimit = 0\<rparr>" 1000000000
        "\<lparr>options = \<lparr>maxGasPrice = 20000000000, gasBuffer = 11 / 10, batchSize = 10\<rparr>,
          gasHistory = []\<rparr>"]
  apply simp
  apply (simp add: capped_def)
  done

text \<open>
  Claim C10. The congestion is the quotient of two integers, rounded to an integer. For
  a block with \<open>0 < gasUsed < gasLimit\<close> it is exactly 0, which is the low tier:
  the adjusted price is the discounted one. For a block whose two quantities are not
  negative it is exactly 1 only when \<open>gasUsed \<ge> gasLimit\<close>. The medium tier is reached
  only with the value 0.5 of the \<open>catch\<close> block: the block fetch failed, or the fetched
  block has a zero \<open>gasLimit\<close> and the division faulted.
\<close>

theorem congestion_is_whole_or_fallback:
  "(\<forall>b. getBlock p = Inr b \<and> 0 < gasUsed b \<and> gasUsed b < gasLimit b \<longrightarrow>
       getNetworkCongestion p = 0
       \<and> getNetworkCongestion p < 3 / 10
       \<and> adjustedGasPrice gp (getNetworkCongestion p) = bn_div (gp * 90) 100)
   \<and> (\<forall>b. getBlock p = Inr b \<and> 0 \<le> gasUsed b \<and> 0 \<le> gasLimit b
          \<and> getNetworkCongestion p = 1 \<longrightarrow> gasLimit b \<le> gasUsed b)
   \<and> (\<not> 8 / 10 < getNetworkCongestion p \<and> \<not> getNetworkCongestion p < 3 / 10 \<longrightarrow>
        getNetworkCongestion p = 1 / 2
        \<and> (\<forall>b. getBlock p = Inr b \<longrightarrow> gasLimit b = 0))"
proof (intro conjI allI impI)
  fix b
  assume h: "getBlock p = Inr b \<and> 0 < gasUsed b \<and> gasUsed b < gasLimit b"
  then show c0: "getNetworkCongestion p = 0"
    by (simp add: getNetworkCongestion_def bn_div_def)
  show "getNetworkCongestion p < 3 / 10"
    by (simp add: c0)
  show "adjustedGasPrice gp (getNetworkCongestion p) = bn_div (gp * 90) 100"
    by (simp add: c0 adjustedGasPrice_def)
next
  fix b
  assume h: "getBlock p = Inr b \<and> 0 \<le> gasUsed b \<and> 0 \<le> gasLimit b
          \<and> getNetworkCongestion p = 1"
  show "gasLimit b \<le> gasUsed b"
  proof (rule ccontr)
    assume "\<not> gasLimit b \<le> gasUsed b"
    then have "gasUsed b < gasLimit b" by simp
    with h have "getNetworkCongestion p = 0"
      by (simp add: getNetworkCongestion_def bn_div_def)
    with h show False by simp
  qed
next
  assume m: "\<not> 8 / 10 < getNetworkCongestion p \<and> \<not> getNetworkCongestion p < 3 / 10"
  with congestion_cases [of p] integral_not_medium
  show "getNetworkCongestion p = 1 / 2" by metis
next
  fix b
  assume m: "\<not> 8 / 10 < getNetworkCongestion p \<and> \<not> getNetworkCongestion p < 3 / 10"
    and b: "getBlock p = Inr b"
  show "gasLimit b = 0"
  proof (rule ccontr)
    assume "gasLimit b \<noteq> 0"
    from congestion_success [OF b this] integral_not_medium m show False by metis
  qed
qed

text \<open>
  A half full block gives congestion 0 and the discount; a full block gives 1; a failed
  block fetch gives 0.5, the only way to the medium tier.
\<close>

theorem congestion_is_whole_or_fallback_witness:
  "getNetworkCongestion
     \<lparr>getGasPrice = Inr 1000, getGasPriceAgain = Inr 1000,
      getBlock = Inr \<lparr>gasUsed = 15000000, gasLimit = 30000000\<rparr>,
      estimateGas = (\<lambda>tx. Inr 21000), now = 0\<rparr> = 0
   \<and> adjustedGasPrice 1000
        (getNetworkCongestion
          \<lparr>getGasPrice = Inr 1000, getGasPriceAgain = Inr 1000,
           getBlock = Inr \<lparr>gasUsed = 15000000, gasLimit = 30000000\<rparr>,
           estimateGas = (\<lambda>tx. Inr 21000), now = 0\<rparr>) = Inr 900
   \<and> getNetworkCongestion
        \<lparr>getGasPrice = Inr 1000, getGasPriceAgain = Inr 1000,
         getBlock = Inr \<lparr>gasUsed = 30000000, gasLimit = 30000000\<rparr>,
         estimateGas = (\<lambda>tx. Inr 21000), now = 0\<rparr> = 1
   \<and> gasLimit \<lparr>gasUsed = 30000000, gasLimit = 30000000\<rparr>
        \<le> gasUsed \<lparr>gasUsed = 30000000, gasLimit = 30000000\<rparr>
   \<and> getNetworkCongestion
        \<lparr>getGasPrice = Inr 1000, getGasPriceAgain = Inr 1000,
         getBlock = Inl (RpcError ''timeout''),
         estimateGas = (\<lambda>tx. Inr 21000), now = 0\<rparr> = 1 / 2"
proof -
  define half where "half =
    \<lparr>getGasPrice = Inr 1000, getGasPriceAgain = Inr 1000,
     getBlock = Inr \<lparr>gasUsed = 15000000, gasLimit = 30000000\<rparr>,
     estimateGas = (\<lambda>tx. Inr 21000), now = 0\<rparr>"
  define full where "full =
    \<lparr>getGasPrice = Inr 1000, getGasPriceAgain = Inr 1000,
     getBlock = Inr \<lparr>gasUsed = 30000000, gasLimit = 30000000\<rparr>,
     estimateGas = (\<lambda>tx. Inr 21000), now = 0\<rparr>"
  define down where "down =
    \<lparr>getGasPrice = Inr 1000, getGasPriceAgain = Inr 1000,
     getBlock = Inl (RpcError ''timeout''),
     estimateGas = (\<lambda>tx. Inr 21000), now = 0\<rparr>"
  have "getBlock half = Inr \<lparr>gasUsed = 15000000, gasLimit = 30000000\<rparr>
      \<and> 0 < gasUsed \<lparr>gasUsed = 15000000, gasLimit = 30000000\<rparr>
      \<and> gasUsed \<lparr>gasUsed = 15000000, gasLimit = 30000000\<rparr>
          < gasLimit \<lparr>gasUsed = 15000000, gasLimit = 30000000\<rparr>"
    by (simp add: half_def)
  with congestion_is_whole_or_fallback [of half 1000]
  have low: "getNetworkCongestion half = 0
      \<and> adjustedGasPrice 1000 (getNetworkCongestion half) = bn_div (1000 * 90) 100"
    by blast
  have "getBlock full = Inr \<lparr>gasUsed = 30000000, gasLimit = 30000000\<rparr>
      \<and> 0 \<le> gasUsed \<lparr>gasUsed = 30000000, gasLimit = 30000000\<rparr>
      \<and> 0 \<le> gasLimit \<lparr>gasUsed = 30000000, gasLimit = 30000000\<rparr>
      \<and> getNetworkCongestion full = 1"
    by (simp add: full_def getNetworkCongestion_def bn_div_def)
  with congestion_is_whole_or_fallback [of full 1000]
  have high: "getNetworkCongestion full = 1
      \<and> gasLimit \<lparr>gasUsed = 30000000, gasLimit = 30000000\<rparr>
          \<le> gasUsed \<lparr>gasUsed = 30000000, gasLimit = 30000000\<rparr>"
    by blast
  have "\<not> 8 / 10 < getNetworkCongestion down \<and> \<not> getNetworkCongestion down < 3 / 10"
    by (simp add: down_def getNetworkCongestion_def)
  with congestion_is_whole_or_fallback [of down 1000]
  have medium: "getNetworkCongestion down = 1 / 2"
    by blast
  have "bn_div (1000 * 90) 100 = Inr 900" by (simp add: bn_div_def)
  with low high medium
  have "getNetworkCongestion half = 0
      \<and> adjustedGasPrice 1000 (getNetworkCongestion half) = Inr 900
      \<and> getNetworkCongestion full = 1
      \<and> gasLimit \<lparr>gasUsed = 30000000, gasLimit = 30000000\<rparr>
          \<le> gasUsed \<lparr>gasUsed = 30000000, gasLimit = 30000000\<rparr>
      \<and> getNetworkCongestion down = 1 / 2"
    by auto
  then show ?thesis
    unfolding half_def full_def down_def .
qed

text \<open>
  Claim C6, as amended. When the first price fetch fails, \<open>getOptimalGasPrice\<close> asks the
  provider for the price a second time and the outcome of that call is its outcome: the
  raw price when the call succeeds, the failure of the call when it fails. When the
  price fetch succeeds and only the block fetch fails, no failure reaches the caller:
  the medium tier applies and the result is the base price, under the cap.
\<close>

theorem getOptimalGasPrice_on_failure:
  "(\<forall>e. getGasPrice p = Inl e \<longrightarrow> getOptimalGasPrice this p = getGasPriceAgain p)
   \<and> (\<forall>gp e. getGasPrice p = Inr gp \<and> getBlock p = Inl e \<longrightarrow>
        getOptimalGasPrice this p = Inr (capped gp (maxGasPrice (options this))))"
  by (simp add: getOptimalGasPrice_def getNetworkCongestion_def adjustedGasPrice_def)

text \<open>
  A provider that fails once and then answers 1 gwei, and a provider that answers the
  price but not the block.
\<close>

theorem getOptimalGasPrice_on_failure_witness:
  "getGasPrice
     \<lparr>getGasPrice = Inl (RpcError ''timeout''), getGasPriceAgain = Inr 1000000000,
      getBlock = Inl (RpcError ''timeout''),
      estimateGas = (\<lambda>tx. Inr 21000), now = 0\<rparr> = Inl (RpcError ''timeout'')
   \<and> getOptimalGasPrice
        \<lparr>options = \<lparr>maxGasPrice = 20000000000, gasBuffer = 11 / 10, batchSize = 10\<rparr>,
         gasHistory = []\<rparr>
        \<lparr>getGasPrice = Inl (RpcError ''timeout''), getGasPriceAgain = Inr 1000000000,
         getBlock = Inl (RpcError ''timeout''),
         estimateGas = (\<lambda>tx. Inr 21000), now = 0\<rparr> = Inr 1000000000
   \<and> getBlock
        \<lparr>getGasPrice = Inr 1000000000, getGasPriceAgain = Inr 1000000000,
         getBlock = Inl (RpcError ''timeout''),
         estimateGas = (\<lambda>tx. Inr 21000), now = 0\<rparr> = Inl (RpcError ''timeout'')
   \<and> getOptimalGasPrice
        \<lparr>options = \<lparr>maxGasPrice = 20000000000, gasBuffer = 11 / 10, batchSize = 10\<rparr>,
         gasHistory = []\<rparr>
        \<lparr>getGasPrice = Inr 1000000000, getGasPriceAgain = Inr 1000000000,
         getBlock = Inl (RpcError ''timeout''),
         estimateGas = (\<lambda>tx. Inr 21000), now = 0\<rparr> = Inr 1000000000"
  using getOptimalGasPrice_on_failure
    [of "\<lparr>getGasPrice = Inl (RpcError ''timeout''), getGasPriceAgain = Inr 1000000000,
          getBlock = Inl (RpcError ''timeout''),
          estimateGas = (\<lambda>tx. Inr 21000), now = 0\<rparr>"
        "\<lparr>options = \<lparr>maxGasPrice = 20000000000, gasBuffer = 11 / 10, batchSize = 10\<rparr>,
          gasHistory = []\<rparr>"]
    getOptimalGasPrice_on_failure
    [of "\<lparr>getGasPrice = Inr 1000000000, getGasPriceAgain = Inr 1000000000,
          getBlock = Inl (RpcError ''timeout''),
          estimateGas = (\<lambda>tx. Inr 21000), now = 0\<rparr>"
        "\<lparr>options = \<lparr>maxGasPrice = 20000000000, gasBuffer = 11 / 10, batchSize = 10\<rparr>,
          gasHistory = []\<rparr>"]
  by (simp add: capped_def)

text \<open>
  Claim C6 as stated fails when the provider is down for both price fetches: the
  failure of the second fetch is what the caller gets.
\<close>

theorem getOptimalGasPrice_propagates_failure:
  "getOptimalGasPrice
     \<lparr>options = \<lparr>maxGasPrice = 20000000000, gasBuffer = 11 / 10, batchSize = 10\<rparr>,
      gasHistory = []\<rparr>
     \<lparr>getGasPrice = Inl (RpcError ''network error''),
      getGasPriceAgain = Inl (RpcError ''network error''),
      getBlock = Inl (RpcError ''network error''),
      estimateGas = (\<lambda>tx. Inr 21000), now = 0\<rparr> = Inl (RpcError ''network error'')"
  by (simp add: getOptimalGasPrice_def)

subsection \<open>Construction\<close>

text \<open>
  Claim C8, as amended. Construction never fails. For every configuration, also one with
  \<open>gasBuffer < 1.0\<close> or \<open>batchSize < 1\<close>, the constructor produces an optimizer whose
  options are the values given (20 gwei, 1.1 and 10 for the keys that are missing) and
  whose history is empty.
\<close>

theorem constructor_accepts_every_configuration:
  "new_BaseGasOptimizer given =
     Inr \<lparr>options =
            \<lparr>maxGasPrice = (case givenMaxGasPrice given of None \<Rightarrow> 20000000000 | Some v \<Rightarrow> v),
             gasBuffer = (case givenGasBuffer given of None \<Rightarrow> 11 / 10 | Some v \<Rightarrow> v),
             batchSize = (case givenBatchSize given of None \<Rightarrow> 10 | Some v \<Rightarrow> v)\<rparr>,
          gasHistory = []\<rparr>"
  by (simp add: new_BaseGasOptimizer_def split: option.splits)

text \<open>
  Claim C8 as stated fails: a buffer of 0.5 and a batch size of 0 are accepted, and the
  optimizer that results prices 21000 gas at 10500.
\<close>

theorem constructor_accepts_small_buffer:
  "new_BaseGasOptimizer
     \<lparr>givenMaxGasPrice = None, givenGasBuffer = Some (1 / 2), givenBatchSize = Some 0\<rparr> =
   Inr \<lparr>options = \<lparr>maxGasPrice = 20000000000, gasBuffer = 1 / 2, batchSize = 0\<rparr>,
        gasHistory = []\<rparr>
   \<and> (1 / 2 :: real) < 1 \<and> (0 :: int) < 1
   \<and> fst (estimateGasWithBuffer
        \<lparr>options = \<lparr>maxGasPrice = 20000000000, gasBuffer = 1 / 2, batchSize = 0\<rparr>,
         gasHistory = []\<rparr>
        \<lparr>getGasPrice = Inr 1000000000, getGasPriceAgain = Inr 1000000000,
         getBlock = Inr \<lparr>gasUsed = 15000000, gasLimit = 30000000\<rparr>,
         estimateGas = (\<lambda>tx. Inr 21000), now = 0\<rparr> Map.empty) = Inr 10500"
  by (simp add: new_BaseGasOptimizer_def estimateGasWithBuffer_def bn_div_def number_eval)

subsection \<open>Statistics\<close>

lemma slice_from_last_10: "slice_from xs (- 10) = recent_window xs"
  by (simp add: slice_from_def relative_index_def recent_window_def nat_diff_distrib' max_def)

lemma recent_window_length: "length (recent_window xs) \<le> 10"
  by (simp add: recent_window_def)

lemma recent_window_nonempty: "xs \<noteq> [] \<Longrightarrow> recent_window xs \<noteq> []"
  by (cases xs) (simp_all add: recent_window_def)

text \<open>
  The sum of at most 10 estimates below \<open>2^49\<close> is below \<open>2^53\<close>, so every step of the
  fold is exact.
\<close>

lemma sum_list_bounds:
  fixes f :: "'a \<Rightarrow> int"
  assumes "\<forall>e \<in> set xs. 0 \<le> f e \<and> f e < B"
  shows "0 \<le> sum_list (map f xs) \<and> sum_list (map f xs) \<le> int (length xs) * (B - 1)"
  using assms
proof (induction xs)
  case Nil
  show ?case by simp
next
  case (Cons x xs)
  then have x: "0 \<le> f x" "f x \<le> B - 1" by simp_all
  from Cons have
    "0 \<le> sum_list (map f xs) \<and> sum_list (map f xs) \<le> int (length xs) * (B - 1)" by simp
  with x show ?case by (simp add: algebra_simps)
qed

lemma fold_exact:
  assumes "\<forall>e \<in> set xs. 0 \<le> f e" and "0 \<le> a" and "a + sum_list (map f xs) < 2 ^ 53"
  shows "foldl (\<lambda>sum entry. js_add sum (parseInt (f entry))) (Finite (of_int a)) xs =
           Finite (of_int (a + sum_list (map f xs)))"
  using assms
proof (induction xs arbitrary: a)
  case Nil
  show ?case by simp
next
  case (Cons x xs)
  from Cons.prems(1) have x: "0 \<le> f x" and xs: "\<forall>e \<in> set xs. 0 \<le> f e" by simp_all
  from xs have rest: "0 \<le> sum_list (map f xs)" by (intro sum_list_nonneg) auto
  from Cons.prems(3) have total: "a + f x + sum_list (map f xs) < 2 ^ 53" by simp
  with rest have here: "a + f x < 2 ^ 53" by linarith
  with Cons.prems(2) have fx: "f x < 2 ^ 53" by linarith
  have p: "parseInt (f x) = Finite (of_int (f x))" by (rule parseInt_exact [OF x fx])
  have "real_of_int (a + f x) < 2 ^ 53"
    using here by (metis of_int_less_iff of_int_numeral of_int_power)
  then have "fl (real_of_int (a + f x)) = Finite (real_of_int (a + f x))"
    using Cons.prems(2) x by (intro fl_exact [where j = 0]) simp_all
  then have step: "js_add (Finite (of_int a)) (parseInt (f x)) = Finite (of_int (a + f x))"
    by (simp add: p)
  have "foldl (\<lambda>sum entry. js_add sum (parseInt (f entry))) (Finite (of_int a)) (x # xs) =
      foldl (\<lambda>sum entry. js_add sum (parseInt (f entry))) (Finite (of_int (a + f x))) xs"
    by (simp add: step)
  also have "\<dots> = Finite (of_int (a + f x + sum_list (map f xs)))"
    using xs Cons.prems(2) x total by (intro Cons.IH) simp_all
  finally show ?case by (simp add: add.assoc)
qed

text \<open>
  The quotient of a sum below \<open>n * 2^49\<close> by a length \<open>n\<close> of at most 10 is rounded to a
  double with the same whole part: the quotient lies between its whole part \<open>k\<close> and
  \<open>k + 9/10\<close>, and \<open>k\<close> and \<open>k + 15/16\<close> are doubles.
\<close>

lemma mean_floor:
  fixes s :: int and n :: nat
  assumes "0 \<le> s" and "s \<le> int n * (2 ^ 49 - 1)" and "0 < n" and "n \<le> 10"
  shows "fl (real_of_int s / real n) = Finite (to_double (real_of_int s / real n))
     \<and> \<lfloor>to_double (real_of_int s / real n)\<rfloor> = \<lfloor>real_of_int s / real n\<rfloor>"
proof (cases "s = 0")
  case True
  then show ?thesis by (simp add: fl_def to_double_def)
next
  case False
  let ?x = "real_of_int s / real n"
  let ?k = "s div int n"
  have n: "0 < real n" "real n \<le> 10" using assms(3,4) by simp_all
  have s: "0 < real_of_int s" using assms(1) False by simp
  have pos: "0 < ?x" using s n(1) by simp
  have "real_of_int s \<le> real_of_int (int n * (2 ^ 49 - 1))"
    using assms(2) by (simp only: of_int_le_iff)
  then have "real_of_int s \<le> real n * (2 ^ 49 - 1)" by simp
  then have "?x \<le> 2 ^ 49 - 1" using n(1) by (simp add: field_simps)
  then have small: "?x < 2 ^ 49" by linarith
  have k: "\<lfloor>?x\<rfloor> = ?k"
    using floor_divide_of_int_eq [of s "int n", where ?'a = real] by simp
  have split: "s = ?k * int n + s mod int n" by simp
  have "s mod int n < int n" using assms(3) by simp
  then have "s mod int n \<le> int n - 1" by simp
  then have "real_of_int (s mod int n) \<le> real_of_int (int n - 1)"
    by (simp only: of_int_le_iff)
  then have r: "real_of_int (s mod int n) \<le> real n - 1" by simp
  have "real_of_int (?k * int n + s mod int n) =
      real_of_int ?k * real n + real_of_int (s mod int n)"
    by (simp only: of_int_add of_int_mult of_int_of_nat_eq)
  then have "real_of_int s = real_of_int ?k * real n + real_of_int (s mod int n)"
    by (simp only: div_mult_mod_eq)
  then have "real_of_int s \<le> real_of_int ?k * real n + (real n - 1)" using r by linarith
  then have "?x \<le> (real_of_int ?k * real n + (real n - 1)) / real n"
    using n(1) by (simp add: divide_right_mono)
  also have "\<dots> = real_of_int ?k + 1 - 1 / real n"
    using n(1) by (simp add: field_simps)
  also have "\<dots> \<le> real_of_int ?k + 15 / 16"
  proof -
    have "1 / 10 \<le> 1 / real n" using n by (simp add: field_simps)
    then show ?thesis by simp
  qed
  finally have upper: "?x \<le> real_of_int ?k + 15 / 16" .
  have lower: "real_of_int ?k \<le> ?x" using k of_int_floor_le [of ?x] by simp
  have x0: "?x < 2 ^ (53 - 0)" using small by simp
  have x4: "?x < 2 ^ (53 - 4)" using small by simp
  have ge: "real_of_int ?k \<le> to_double ?x"
    using lower by (intro to_double_ge [OF pos x0]) simp_all
  have "(real_of_int ?k + 15 / 16) * 2 ^ 4 = real_of_int (?k * 16 + 15)" by simp
  then have grid: "(real_of_int ?k + 15 / 16) * 2 ^ 4 \<in> \<int>" by (simp only: Ints_of_int)
  have le: "to_double ?x \<le> real_of_int ?k + 15 / 16"
    using upper grid by (intro to_double_le [OF pos x4]) simp_all
  have k0: "0 \<le> real_of_int ?k" using assms(1,3) by (simp add: pos_imp_zdiv_nonneg_iff)
  have "real_of_int ?k \<le> 2 ^ 49" using lower small by linarith
  then have "to_double ?x \<le> 2 ^ 53" using le by simp
  moreover have "- (2 ^ 53) \<le> to_double ?x" using ge k0 by simp
  ultimately have "fl ?x = Finite (to_double ?x)" by (intro fl_finite)
  moreover have "\<lfloor>to_double ?x\<rfloor> = ?k"
    using ge le by (intro floor_unique) simp_all
  ultimately show ?thesis using k by simp
qed

lemma average_value:
  assumes "w \<noteq> []" and "length w \<le> 10" and "\<forall>e \<in> set w. 0 \<le> f e \<and> f e < 2 ^ 49"
  shows "js_div (foldl (\<lambda>sum entry. js_add sum (parseInt (f entry))) (Finite 0) w)
           (Finite (real (length w))) = Finite (to_double (mean_of f w))
     \<and> js_div (foldl (\<lambda>sum entry. js_add sum (parseInt (f entry))) (Finite 0) w)
           (Finite (real (length w))) = fl (mean_of f w)
     \<and> \<lfloor>to_double (mean_of f w)\<rfloor> = \<lfloor>mean_of f w\<rfloor>"
proof -
  let ?s = "sum_list (map f w)"
  let ?n = "length w"
  from sum_list_bounds [OF assms(3)] have
    s0: "0 \<le> ?s" and s1: "?s \<le> int ?n * (2 ^ 49 - 1)" by simp_all
  have n: "0 < ?n" using assms(1) by simp
  have "int ?n * (2 ^ 49 - 1) \<le> 10 * (2 ^ 49 - 1)"
    using assms(2) by (intro mult_right_mono) simp_all
  with s1 have below: "0 + ?s < 2 ^ 53" by simp
  have nonneg: "\<forall>e \<in> set w. 0 \<le> f e" using assms(3) by simp
  have "foldl (\<lambda>sum entry. js_add sum (parseInt (f entry))) (Finite (of_int 0)) w =
      Finite (of_int (0 + ?s))"
    by (rule fold_exact [OF nonneg _ below]) simp
  then have sum: "foldl (\<lambda>sum entry. js_add sum (parseInt (f entry))) (Finite 0) w =
      Finite (of_int ?s)" by simp
  have quotient: "js_div (Finite (of_int ?s)) (Finite (real ?n)) = fl (mean_of f w)"
    using n by (simp add: mean_of_def)
  from mean_floor [OF s0 s1 n assms(2)] have
    "fl (mean_of f w) = Finite (to_double (mean_of f w))"
    "\<lfloor>to_double (mean_of f w)\<rfloor> = \<lfloor>mean_of f w\<rfloor>"
    by (simp_all add: mean_of_def)
  with sum quotient show ?thesis by simp
qed

text \<open>
  A mean of 0 is the double 0, and a mean above 0 is at least \<open>1/10\<close> and is rounded to
  a double above 0 that is a double already.
\<close>

lemma mean_positive:
  fixes s :: int and n :: nat
  assumes "0 < s" and "s \<le> int n * (2 ^ 49 - 1)" and "0 < n" and "n \<le> 10"
  shows "1 / 16 \<le> to_double (real_of_int s / real n)
     \<and> to_double (real_of_int s / real n) \<le> 2 ^ 49"
proof -
  let ?x = "real_of_int s / real n"
  have n: "0 < real n" "real n \<le> 10" using assms(3,4) by simp_all
  have "1 \<le> s" using assms(1) by simp
  then have "real_of_int 1 \<le> real_of_int s" by (simp only: of_int_le_iff)
  then have s: "1 \<le> real_of_int s" by simp
  have "1 / 10 \<le> 1 / real n" using n by (simp add: field_simps)
  also have "\<dots> \<le> ?x" using s n(1) by (simp add: divide_right_mono)
  finally have low: "1 / 16 \<le> ?x" by simp
  then have pos: "0 < ?x" by linarith
  have "real_of_int s \<le> real_of_int (int n * (2 ^ 49 - 1))"
    using assms(2) by (simp only: of_int_le_iff)
  then have "real_of_int s \<le> real n * (2 ^ 49 - 1)" by simp
  then have "?x \<le> 2 ^ 49 - 1" using n(1) by (simp add: field_simps)
  then have small: "?x \<le> 2 ^ 49" by linarith
  from small have x0: "?x < 2 ^ (53 - 0)" by simp
  from small have x3: "?x < 2 ^ (53 - 4)" using \<open>?x \<le> 2 ^ 49 - 1\<close> by simp
  have "1 / 16 \<le> to_double ?x"
    using low by (intro to_double_ge [OF pos x3]) simp_all
  moreover have "to_double ?x \<le> 2 ^ 49"
    using small by (intro to_double_le [OF pos x0]) simp_all
  ultimately show ?thesis by simp
qed

lemma efficiency_of_zero_mean:
  assumes "w \<noteq> []" and "length w \<le> 10" and "\<forall>e \<in> set w. 0 \<le> f e \<and> f e < 2 ^ 49"
  shows "mean_of f w = 0 \<Longrightarrow>
           js_mul (js_div (js_sub (fl (mean_of f w)) (Finite 0)) (Finite 0)) (Finite 100) = NaN"
    and "0 < mean_of f w \<Longrightarrow>
           js_mul (js_div (js_sub (fl (mean_of f w)) (Finite 0)) (Finite 0)) (Finite 100) =
             PosInfinity"
proof -
  assume "mean_of f w = 0"
  then show "js_mul (js_div (js_sub (fl (mean_of f w)) (Finite 0)) (Finite 0)) (Finite 100) = NaN"
    by (simp add: js_sub_def fl_def to_double_def)
next
  assume m: "0 < mean_of f w"
  let ?s = "sum_list (map f w)"
  let ?n = "length w"
  let ?d = "to_double (mean_of f w)"
  from sum_list_bounds [OF assms(3)] have s1: "?s \<le> int ?n * (2 ^ 49 - 1)" by simp
  have n: "0 < ?n" using assms(1) by simp
  have "0 < real_of_int ?s" using m n by (simp add: mean_of_def zero_less_divide_iff)
  then have s0: "0 < ?s" by simp
  from mean_positive [OF s0 s1 n assms(2)] have d: "1 / 16 \<le> ?d" "?d \<le> 2 ^ 49"
    by (simp_all add: mean_of_def)
  then have first: "fl (mean_of f w) = Finite ?d" by (intro fl_finite) simp_all
  have dpos: "0 < ?d" using d(1) by linarith
  have d0: "?d < 2 ^ (53 - 0)" using d(2) by simp
  have d4: "?d < 2 ^ (53 - 4)" if "?d < 2 ^ 49" using that by simp
  have again: "1 / 16 \<le> to_double ?d \<and> to_double ?d \<le> 2 ^ 49"
  proof
    show "to_double ?d \<le> 2 ^ 49"
      using d(2) by (intro to_double_le [OF dpos d0]) simp_all
    show "1 / 16 \<le> to_double ?d"
    proof (cases "?d < 2 ^ 49")
      case True
      show ?thesis using d(1) by (intro to_double_ge [OF dpos d4 [OF True]]) simp_all
    next
      case False
      with d(2) have "?d = 2 ^ 49" by simp
      moreover have "to_double (2 ^ 49) = 2 ^ 49"
        by (rule to_double_exact [where j = 0]) simp_all
      ultimately show ?thesis by simp
    qed
  qed
  then have second: "fl ?d = Finite (to_double ?d)" by (intro fl_finite) simp_all
  have "0 < to_double ?d" using again by linarith
  then show "js_mul (js_div (js_sub (fl (mean_of f w)) (Finite 0)) (Finite 0)) (Finite 100) =
      PosInfinity"
    by (simp add: js_sub_def first second)
qed

lemma getGasStats_nonempty:
  assumes "gasHistory this \<noteq> []"
    and "\<forall>e \<in> set (recent_window (gasHistory this)).
           0 \<le> estimated e \<and> estimated e < 2 ^ 49 \<and> 0 \<le> buffered e \<and> buffered e < 2 ^ 49"
  shows "getGasStats toString this =
     Stats \<lparr>totalTransactions = length (gasHistory this),
            recentAvgEstimated =
              Finite (of_int \<lfloor>mean_of estimated (recent_window (gasHistory this))\<rfloor>),
            recentAvgBuffered =
              Finite (of_int \<lfloor>mean_of buffered (recent_window (gasHistory this))\<rfloor>),
            bufferEfficiency =
              toFixed2 toString
                (js_mul
                   (js_div
                      (js_sub (fl (mean_of buffered (recent_window (gasHistory this))))
                         (fl (mean_of estimated (recent_window (gasHistory this)))))
                      (fl (mean_of estimated (recent_window (gasHistory this)))))
                   (Finite 100)) @ ''%''\<rparr>"
proof -
  let ?w = "recent_window (gasHistory this)"
  have w: "?w \<noteq> []" by (rule recent_window_nonempty [OF assms(1)])
  have l: "length ?w \<le> 10" by (rule recent_window_length)
  have e: "\<forall>e \<in> set ?w. 0 \<le> estimated e \<and> estimated e < 2 ^ 49" using assms(2) by simp
  have b: "\<forall>e \<in> set ?w. 0 \<le> buffered e \<and> buffered e < 2 ^ 49" using assms(2) by simp
  note E = average_value [OF w l e]
  note B = average_value [OF w l b]
  have E1: "js_div (foldl (\<lambda>sum entry. js_add sum (parseInt (estimated entry))) (Finite 0) ?w)
      (Finite (real (length ?w))) = fl (mean_of estimated ?w)"
    using E by (elim conjE)
  have B1: "js_div (foldl (\<lambda>sum entry. js_add sum (parseInt (buffered entry))) (Finite 0) ?w)
      (Finite (real (length ?w))) = fl (mean_of buffered ?w)"
    using B by (elim conjE)
  have E2: "js_floor (fl (mean_of estimated ?w)) = Finite (of_int \<lfloor>mean_of estimated ?w\<rfloor>)"
    using E by (elim conjE) simp
  have B2: "js_floor (fl (mean_of buffered ?w)) = Finite (of_int \<lfloor>mean_of buffered ?w\<rfloor>)"
    using B by (elim conjE) simp
  show ?thesis
    using assms(1)
    by (simp add: getGasStats_def Let_def slice_from_last_10 E1 B1 E2 B2)
qed

text \<open>
  Claim C9, as amended. When the history is empty, \<open>getGasStats\<close> returns the message
  that there is no history, and divides nothing. Otherwise it returns the number of all
  records and, when the estimates of the at most 10 most recent records are whole
  numbers from 0 to below \<open>2^49\<close>: the mean raw estimate and the mean buffered estimate
  over these records, each rounded down to a whole number, and as buffer efficiency
  \<open>(meanBuffered - meanRaw) / meanRaw * 100\<close> as a text: computed in doubles from the
  two means before they are rounded down, with two decimals and a percent sign. When
  the mean raw estimate is 0, that text is \<open>NaN%\<close> if the mean buffered estimate is 0
  too and \<open>Infinity%\<close> if it is not.
\<close>

theorem getGasStats_value:
  "(gasHistory this = [] \<longrightarrow>
      getGasStats toString this = Message ''No gas history available'')
   \<and> (gasHistory this \<noteq> [] \<longrightarrow>
        (\<exists>st. getGasStats toString this = Stats st
           \<and> totalTransactions st = length (gasHistory this)
           \<and> ((\<forall>e \<in> set (recent_window (gasHistory this)).
                  0 \<le> estimated e \<and> estimated e < 2 ^ 49
                  \<and> 0 \<le> buffered e \<and> buffered e < 2 ^ 49) \<longrightarrow>
                recentAvgEstimated st =
                  Finite (of_int \<lfloor>mean_of estimated (recent_window (gasHistory this))\<rfloor>)
              \<and> recentAvgBuffered st =
                  Finite (of_int \<lfloor>mean_of buffered (recent_window (gasHistory this))\<rfloor>)
              \<and> bufferEfficiency st =
                  toFixed2 toString
                    (js_mul
                       (js_div
                          (js_sub (fl (mean_of buffered (recent_window (gasHistory this))))
                             (fl (mean_of estimated (recent_window (gasHistory this)))))
                          (fl (mean_of estimated (recent_window (gasHistory this)))))
                       (Finite 100)) @ ''%''
              \<and> (mean_of estimated (recent_window (gasHistory this)) = 0
                   \<and> mean_of buffered (recent_window (gasHistory this)) = 0 \<longrightarrow>
                     bufferEfficiency st = ''NaN%'')
              \<and> (mean_of estimated (recent_window (gasHistory this)) = 0
                   \<and> 0 < mean_of buffered (recent_window (gasHistory this)) \<longrightarrow>
                     bufferEfficiency st = ''Infinity%''))))
   \<and> length (recent_window (gasHistory this)) \<le> 10"
proof (intro conjI impI)
  assume "gasHistory this = []"
  then show "getGasStats toString this = Message ''No gas history available''"
    by (simp add: getGasStats_def)
next
  let ?w = "recent_window (gasHistory this)"
  let ?bounds = "\<forall>e \<in> set ?w.
     0 \<le> estimated e \<and> estimated e < 2 ^ 49 \<and> 0 \<le> buffered e \<and> buffered e < 2 ^ 49"
  let ?text = "toFixed2 toString
     (js_mul (js_div (js_sub (fl (mean_of buffered ?w)) (fl (mean_of estimated ?w)))
        (fl (mean_of estimated ?w))) (Finite 100)) @ ''%''"
  assume nonempty: "gasHistory this \<noteq> []"
  then obtain st where st: "getGasStats toString this = Stats st"
    and total: "totalTransactions st = length (gasHistory this)"
    by (simp add: getGasStats_def Let_def)
  have rest: "recentAvgEstimated st = Finite (of_int \<lfloor>mean_of estimated ?w\<rfloor>)
      \<and> recentAvgBuffered st = Finite (of_int \<lfloor>mean_of buffered ?w\<rfloor>)
      \<and> bufferEfficiency st = ?text
      \<and> (mean_of estimated ?w = 0 \<and> mean_of buffered ?w = 0 \<longrightarrow>
           bufferEfficiency st = ''NaN%'')
      \<and> (mean_of estimated ?w = 0 \<and> 0 < mean_of buffered ?w \<longrightarrow>
           bufferEfficiency st = ''Infinity%'')" if bounds: ?bounds
  proof -
    from getGasStats_nonempty [OF nonempty bounds, of toString] st
    have fields: "recentAvgEstimated st = Finite (of_int \<lfloor>mean_of estimated ?w\<rfloor>)"
      "recentAvgBuffered st = Finite (of_int \<lfloor>mean_of buffered ?w\<rfloor>)"
      "bufferEfficiency st = ?text"
      by simp_all
    have w: "?w \<noteq> []" by (rule recent_window_nonempty [OF nonempty])
    have l: "length ?w \<le> 10" by (rule recent_window_length)
    have b: "\<forall>e \<in> set ?w. 0 \<le> buffered e \<and> buffered e < 2 ^ 49" using bounds by simp
    have zero: "fl (mean_of estimated ?w) = Finite 0" if "mean_of estimated ?w = 0"
      using that by (simp add: fl_def to_double_def)
    have nan: "bufferEfficiency st = ''NaN%''"
      if "mean_of estimated ?w = 0 \<and> mean_of buffered ?w = 0"
    proof -
      from that have z: "mean_of estimated ?w = 0" and m: "mean_of buffered ?w = 0"
        by simp_all
      show ?thesis
        unfolding fields(3) zero [OF z] efficiency_of_zero_mean(1) [OF w l b m]
        by (simp add: toFixed2_def)
    qed
    have inf: "bufferEfficiency st = ''Infinity%''"
      if "mean_of estimated ?w = 0 \<and> 0 < mean_of buffered ?w"
    proof -
      from that have z: "mean_of estimated ?w = 0" and m: "0 < mean_of buffered ?w"
        by simp_all
      show ?thesis
        unfolding fields(3) zero [OF z] efficiency_of_zero_mean(2) [OF w l b m]
        by (simp add: toFixed2_def)
    qed
    from fields nan inf show ?thesis by blast
  qed
  show "\<exists>st. getGasStats toString this = Stats st
           \<and> totalTransactions st = length (gasHistory this)
           \<and> (?bounds \<longrightarrow>
                recentAvgEstimated st = Finite (of_int \<lfloor>mean_of estimated ?w\<rfloor>)
              \<and> recentAvgBuffered st = Finite (of_int \<lfloor>mean_of buffered ?w\<rfloor>)
              \<and> bufferEfficiency st = ?text
              \<and> (mean_of estimated ?w = 0 \<and> mean_of buffered ?w = 0 \<longrightarrow>
                   bufferEfficiency st = ''NaN%'')
              \<and> (mean_of estimated ?w = 0 \<and> 0 < mean_of buffered ?w \<longrightarrow>
                   bufferEfficiency st = ''Infinity%''))"
    apply (rule exI [of _ st])
    apply (intro conjI)
      apply (rule st)
     apply (rule total)
    apply (rule impI)
    apply (erule rest)
    done
next
  show "length (recent_window (gasHistory this)) \<le> 10"
    by (rule recent_window_length)
qed

text \<open>
  An empty history; a history of 12 records, of which the last 10 have the sums 548333
  and 650230, the means 54833.3 and 65023 and the efficiency 18.583...; and two
  histories of one record with a raw estimate of 0. No number here reaches \<open>10^21\<close>, so
  the text that \<open>toString\<close> would give is never asked for.
\<close>

theorem getGasStats_value_witness:
  "getGasStats (\<lambda>v. ''1e+21'')
     \<lparr>options = \<lparr>maxGasPrice = 20000000000, gasBuffer = 11 / 10, batchSize = 10\<rparr>,
      gasHistory = []\<rparr> = Message ''No gas history available''
   \<and> (\<exists>st. getGasStats (\<lambda>v. ''1e+21'')
         \<lparr>options = \<lparr>maxGasPrice = 20000000000, gasBuffer = 11 / 10, batchSize = 10\<rparr>,
          gasHistory =
            [\<lparr>timestamp = 1, estimated = 21000, buffered = 26250\<rparr>,
             \<lparr>timestamp = 2, estimated = 21000, buffered = 23100\<rparr>,
             \<lparr>timestamp = 3, estimated = 45123, buffered = 49635\<rparr>,
             \<lparr>timestamp = 4, estimated = 65000, buffered = 81250\<rparr>,
             \<lparr>timestamp = 5, estimated = 32000, buffered = 35200\<rparr>,
             \<lparr>timestamp = 6, estimated = 21000, buffered = 23100\<rparr>,
             \<lparr>timestamp = 7, estimated = 150000, buffered = 187500\<rparr>,
             \<lparr>timestamp = 8, estimated = 51234, buffered = 56357\<rparr>,
             \<lparr>timestamp = 9, estimated = 21000, buffered = 23100\<rparr>,
             \<lparr>timestamp = 10, estimated = 98765, buffered = 123456\<rparr>,
             \<lparr>timestamp = 11, estimated = 43210, buffered = 47531\<rparr>,
             \<lparr>timestamp = 12, estimated = 21001, buffered = 23101\<rparr>]\<rparr> = Stats st
       \<and> totalTransactions st = 12
       \<and> recentAvgEstimated st = Finite 54833
       \<and> recentAvgBuffered st = Finite 65023
       \<and> bufferEfficiency st = ''18.58%'')
   \<and> (\<exists>st. getGasStats (\<lambda>v. ''1e+21'')
         \<lparr>options = \<lparr>maxGasPrice = 20000000000, gasBuffer = 11 / 10, batchSize = 10\<rparr>,
          gasHistory = [\<lparr>timestamp = 1, estimated = 0, buffered = 0\<rparr>]\<rparr> = Stats st
       \<and> totalTransactions st = 1
       \<and> recentAvgEstimated st = Finite 0
       \<and> bufferEfficiency st = ''NaN%'')
   \<and> (\<exists>st. getGasStats (\<lambda>v. ''1e+21'')
         \<lparr>options = \<lparr>maxGasPrice = 20000000000, gasBuffer = 11 / 10, batchSize = 10\<rparr>,
          gasHistory = [\<lparr>timestamp = 1, estimated = 0, buffered = 7\<rparr>]\<rparr> = Stats st
       \<and> recentAvgBuffered st = Finite 7
       \<and> bufferEfficiency st = ''Infinity%'')"
proof -
  define toString :: "real \<Rightarrow> string" where "toString = (\<lambda>v. ''1e+21'')"
  define opts where
    "opts = \<lparr>maxGasPrice = 20000000000, gasBuffer = 11 / 10, batchSize = 10\<rparr>"
  define h where "h =
            [\<lparr>timestamp = 1, estimated = 21000, buffered = 26250\<rparr>,
             \<lparr>timestamp = 2, estimated = 21000, buffered = 23100\<rparr>,
             \<lparr>timestamp = 3, estimated = 45123, buffered = 49635\<rparr>,
             \<lparr>timestamp = 4, estimated = 65000, buffered = 81250\<rparr>,
             \<lparr>timestamp = 5, estimated = 32000, buffered = 35200\<rparr>,
             \<lparr>timestamp = 6, estimated = 21000, buffered = 23100\<rparr>,
             \<lparr>timestamp = 7, estimated = 150000, buffered = 187500\<rparr>,
             \<lparr>timestamp = 8, estimated = 51234, buffered = 56357\<rparr>,
             \<lparr>timestamp = 9, estimated = 21000, buffered = 23100\<rparr>,
             \<lparr>timestamp = 10, estimated = 98765, buffered = 123456\<rparr>,
             \<lparr>timestamp = 11, estimated = 43210, buffered = 47531\<rparr>,
             \<lparr>timestamp = 12, estimated = 21001, buffered = 23101\<rparr>]"
  define z where "z = [\<lparr>timestamp = 1, estimated = 0, buffered = 0\<rparr>]"
  define i where "i = [\<lparr>timestamp = 1, estimated = 0, buffered = 7\<rparr>]"
  have empty: "getGasStats toString \<lparr>options = opts, gasHistory = []\<rparr> =
      Message ''No gas history available''"
    using getGasStats_value [of "\<lparr>options = opts, gasHistory = []\<rparr>" toString] by simp
  have window: "recent_window h = drop 2 h" by (simp add: recent_window_def h_def)
  have bounds: "\<forall>e \<in> set (recent_window h).
      0 \<le> estimated e \<and> estimated e < 2 ^ 49 \<and> 0 \<le> buffered e \<and> buffered e < 2 ^ 49"
    unfolding window by (simp add: h_def)
  have mE: "mean_of estimated (recent_window h) = 548333 / 10"
    unfolding window by (simp add: h_def mean_of_def)
  have mB: "mean_of buffered (recent_window h) = 65023"
    unfolding window by (simp add: h_def mean_of_def)
  have shown: "toFixed2 toString
      (js_mul (js_div (js_sub (fl 65023) (fl (548333 / 10))) (fl (548333 / 10))) (Finite 100))
      @ ''%'' = ''18.58%''"
    by (simp add: number_eval js_sub_def toFixed2_def decimal.simps)
  have len: "length h = 12" by (simp add: h_def)
  have nonempty: "h \<noteq> []" by (simp add: h_def)
  have fE: "real_of_int \<lfloor>548333 / 10 :: real\<rfloor> = 54833" by simp
  have fB: "real_of_int \<lfloor>65023 :: real\<rfloor> = 65023" by simp
  have full: "\<exists>st. getGasStats toString \<lparr>options = opts, gasHistory = h\<rparr> = Stats st
      \<and> totalTransactions st = 12
      \<and> recentAvgEstimated st = Finite 54833
      \<and> recentAvgBuffered st = Finite 65023
      \<and> bufferEfficiency st = ''18.58%''"
    using getGasStats_value [of "\<lparr>options = opts, gasHistory = h\<rparr>" toString] bounds nonempty
    unfolding optimizer.simps mE mB shown len fE fB
    by blast
  have zw: "recent_window z = z" by (simp add: recent_window_def z_def)
  have zb: "\<forall>e \<in> set (recent_window z).
      0 \<le> estimated e \<and> estimated e < 2 ^ 49 \<and> 0 \<le> buffered e \<and> buffered e < 2 ^ 49"
    unfolding zw by (simp add: z_def)
  have zE: "mean_of estimated (recent_window z) = 0" "mean_of buffered (recent_window z) = 0"
    unfolding zw by (simp_all add: z_def mean_of_def)
  have zero: "\<exists>st. getGasStats toString \<lparr>options = opts, gasHistory = z\<rparr> = Stats st
      \<and> totalTransactions st = 1
      \<and> recentAvgEstimated st = Finite 0
      \<and> bufferEfficiency st = ''NaN%''"
    using getGasStats_value [of "\<lparr>options = opts, gasHistory = z\<rparr>" toString] zb
    unfolding optimizer.simps zE
    by (auto simp add: z_def)
  have iw: "recent_window i = i" by (simp add: recent_window_def i_def)
  have ib: "\<forall>e \<in> set (recent_window i).
      0 \<le> estimated e \<and> estimated e < 2 ^ 49 \<and> 0 \<le> buffered e \<and> buffered e < 2 ^ 49"
    unfolding iw by (simp add: i_def)
  have iE: "mean_of estimated (recent_window i) = 0" "mean_of buffered (recent_window i) = 7"
    unfolding iw by (simp_all add: i_def mean_of_def)
  have inf: "\<exists>st. getGasStats toString \<lparr>options = opts, gasHistory = i\<rparr> = Stats st
      \<and> recentAvgBuffered st = Finite 7
      \<and> bufferEfficiency st = ''Infinity%''"
    using getGasStats_value [of "\<lparr>options = opts, gasHistory = i\<rparr>" toString] ib
    unfolding optimizer.simps iE
    by (auto simp add: i_def)
  from empty full zero inf show ?thesis
    unfolding toString_def opts_def h_def z_def i_def by (intro conjI)
qed

text \<open>
  Claim C9 as stated fails when a mean is not whole, and for the efficiency, which is
  rounded to two decimals: for the raw estimates 21000 and 21001, buffered to 23100 and
  23101, the mean raw estimate is 21000.5 and the statistics say 21000; the efficiency
  of the two means is \<open>420000 / 42001 = 9.99976...\<close> and the statistics say \<open>10.00%\<close>.
\<close>

theorem getGasStats_rounds_mean_down:
  "getGasStats (\<lambda>v. ''1e+21'')
     \<lparr>options = \<lparr>maxGasPrice = 20000000000, gasBuffer = 11 / 10, batchSize = 10\<rparr>,
      gasHistory = [\<lparr>timestamp = 1, estimated = 21000, buffered = 23100\<rparr>,
                    \<lparr>timestamp = 2, estimated = 21001, buffered = 23101\<rparr>]\<rparr> =
     Stats \<lparr>totalTransactions = 2, recentAvgEstimated = Finite 21000,
            recentAvgBuffered = Finite 23100, bufferEfficiency = ''10.00%''\<rparr>
   \<and> mean_of estimated [\<lparr>timestamp = 1, estimated = 21000, buffered = 23100\<rparr>,
                        \<lparr>timestamp = 2, estimated = 21001, buffered = 23101\<rparr>] = 42001 / 2
   \<and> (mean_of buffered [\<lparr>timestamp = 1, estimated = 21000, buffered = 23100\<rparr>,
                        \<lparr>timestamp = 2, estimated = 21001, buffered = 23101\<rparr>]
        - mean_of estimated [\<lparr>timestamp = 1, estimated = 21000, buffered = 23100\<rparr>,
                             \<lparr>timestamp = 2, estimated = 21001, buffered = 23101\<rparr>])
       / mean_of estimated [\<lparr>timestamp = 1, estimated = 21000, buffered = 23100\<rparr>,
                            \<lparr>timestamp = 2, estimated = 21001, buffered = 23101\<rparr>] * 100
       = 420000 / 42001"
  by (simp add: getGasStats_def Let_def slice_from_def relative_index_def mean_of_def
      parseInt_def number_eval js_sub_def toFixed2_def decimal.simps)

text \<open>
  The bound on the estimates is needed: \<open>parseInt\<close> gives a double, and from \<open>2^53\<close> on
  not every whole number is one.
\<close>

lemma parseInt_rounds: "parseInt 9007199254740993 = Finite 9007199254740992"
  by (simp add: parseInt_def number_eval)

subsection \<open>Batches\<close>

lemma slice_nonneg:
  assumes "0 \<le> i" and "0 \<le> n"
  shows "slice xs i (i + n) = take (nat n) (drop (nat i) xs)"
proof (cases "nat i \<le> length xs")
  case True
  with assms have lo: "relative_index i (length xs) = nat i"
    by (simp add: relative_index_def)
  from assms have hi: "relative_index (i + n) (length xs) = min (nat i + nat n) (length xs)"
    by (simp add: relative_index_def nat_add_distrib)
  show ?thesis
  proof (cases "nat i + nat n \<le> length xs")
    case True
    then show ?thesis by (simp add: slice_def lo hi)
  next
    case False
    then show ?thesis using \<open>nat i \<le> length xs\<close> by (simp add: slice_def lo hi)
  qed
next
  case False
  then show ?thesis using assms by (simp add: slice_def relative_index_def Let_def)
qed

text \<open>
  Whole numbers below \<open>2^53\<close> are added without rounding, and a whole number is its own
  index.
\<close>

lemma js_add_whole:
  fixes a b :: int
  assumes "0 \<le> a" and "0 \<le> b" and "a + b < 2 ^ 53"
  shows "js_add (Finite (of_int a)) (Finite (of_int b)) = Finite (of_int (a + b))"
proof -
  have "real_of_int (a + b) < 2 ^ 53"
    using assms(3) by (metis of_int_less_iff of_int_numeral of_int_power)
  then have "fl (real_of_int (a + b)) = Finite (real_of_int (a + b))"
    using assms(1,2) by (intro fl_exact [where j = 0]) simp_all
  then show ?thesis by simp
qed

lemma to_index_whole: "0 \<le> a \<Longrightarrow> to_index len (Finite (of_int a)) = a"
  by (simp add: to_index_def)

text \<open>One round of the loop at a whole index with a whole batch size, and its end.\<close>

lemma makeBatches_step:
  fixes step i :: int
  assumes "0 \<le> i" and "0 \<le> step" and "i + step < 2 ^ 53" and "i < int (length xs)"
  shows "makeBatches (Finite (of_int step)) xs (Finite (of_int i)) acc =
           makeBatches (Finite (of_int step)) xs (Finite (of_int (i + step)))
             (acc @ [slice xs i (i + step)])"
proof -
  have next_i: "0 \<le> i + step" using assms(1,2) by simp
  have add: "js_add (Finite (of_int i)) (Finite (of_int step)) = Finite (of_int (i + step))"
    by (rule js_add_whole [OF assms(1,2,3)])
  have "real_of_int i < real_of_int (int (length xs))"
    using assms(4) by (simp only: of_int_less_iff)
  then have less_len: "js_less (Finite (of_int i)) (Finite (real (length xs)))" by simp
  show ?thesis
    apply (subst makeBatches.simps)
    apply (simp only: less_len if_True add to_index_whole [OF assms(1)]
        to_index_whole [OF next_i])
    done
qed

lemma makeBatches_stop:
  fixes i :: int
  assumes "\<not> i < int (length xs)"
  shows "makeBatches step xs (Finite (of_int i)) acc = Some acc"
proof -
  have "\<not> real_of_int i < real_of_int (int (length xs))"
    using assms by simp
  then have "\<not> js_less (Finite (of_int i)) (Finite (real (length xs)))" by simp
  then show ?thesis
    by (subst makeBatches.simps) (simp only: if_False)
qed

text \<open>
  With a whole batch size of at least 1 the loop ends: it adds to the batches it has
  the rest of the input from \<open>i\<close> on, cut into pieces that are not empty and not longer
  than the batch size, and all but the last are as long as the batch size.
\<close>

lemma makeBatches_Some:
  fixes step i :: int
  assumes "1 \<le> step" and "0 \<le> i" and "int (length xs) + step < 2 ^ 53"
  shows "\<exists>bs. makeBatches (Finite (of_int step)) xs (Finite (of_int i)) acc = Some (acc @ bs)
           \<and> concat bs = drop (nat i) xs
           \<and> (\<forall>b \<in> set bs. b \<noteq> [] \<and> int (length b) \<le> step)
           \<and> (\<forall>b \<in> set (butlast bs). int (length b) = step)"
  using assms(2)
proof (induction "length xs - nat i" arbitrary: i acc rule: less_induct)
  case less
  show ?case
  proof (cases "i < int (length xs)")
    case True
    let ?b = "slice xs i (i + step)"
    have b: "?b = take (nat step) (drop (nat i) xs)"
      using less.prems assms(1) by (simp add: slice_nonneg)
    have smaller: "length xs - nat (i + step) < length xs - nat i"
      using True less.prems assms(1) by linarith
    have next_i: "0 \<le> i + step" using less.prems assms(1) by simp
    from less.hyps [OF smaller next_i, of "acc @ [?b]"]
    obtain bs where bs:
      "makeBatches (Finite (of_int step)) xs (Finite (of_int (i + step))) (acc @ [?b]) =
         Some ((acc @ [?b]) @ bs)"
      "concat bs = drop (nat (i + step)) xs"
      "\<forall>b \<in> set bs. b \<noteq> [] \<and> int (length b) \<le> step"
      "\<forall>b \<in> set (butlast bs). int (length b) = step"
      by blast
    have below: "i + step < 2 ^ 53" using True assms(3) by linarith
    have step0: "0 \<le> step" using assms(1) by simp
    note unfold = makeBatches_step [OF less.prems step0 below True, of acc]
    have "nat (i + step) = nat step + nat i"
      using less.prems assms(1) by (simp add: nat_add_distrib)
    then have cat: "concat (?b # bs) = drop (nat i) xs"
      by (simp add: b bs(2) drop_drop [symmetric] del: drop_drop)
    have ne: "?b \<noteq> []" using True less.prems assms(1) by (simp add: b)
    have le: "int (length ?b) \<le> step" using assms(1) by (simp add: b)
    have full: "int (length ?b) = step" if "bs \<noteq> []"
    proof -
      from that bs(3) have "concat bs \<noteq> []" by (cases bs) simp_all
      then have "nat (i + step) < length xs" by (simp add: bs(2))
      then have "nat i + nat step \<le> length xs"
        using less.prems assms(1) by (simp add: nat_add_distrib)
      then show ?thesis using assms(1) by (simp add: b)
    qed
    have all_full: "\<forall>b \<in> set (butlast (?b # bs)). int (length b) = step"
      using full bs(4) by simp
    have all_short: "\<forall>b \<in> set (?b # bs). b \<noteq> [] \<and> int (length b) \<le> step"
      using ne le bs(3) by simp
    have result: "makeBatches (Finite (of_int step)) xs (Finite (of_int i)) acc =
        Some (acc @ (?b # bs))"
      using unfold bs(1) by simp
    from result cat all_short all_full show ?thesis by blast
  next
    case False
    then have "makeBatches (Finite (of_int step)) xs (Finite (of_int i)) acc = Some acc"
      by (rule makeBatches_stop)
    moreover from False less.prems have "drop (nat i) xs = []" by simp
    ultimately show ?thesis by simp
  qed
qed

lemma makeBatches_25:
  assumes "length xs = 25"
  shows "makeBatches (Finite 10) xs (Finite 0) [] =
           Some [slice xs 0 10, slice xs 10 20, slice xs 20 30]"
proof -
  have "makeBatches (Finite 10) xs (Finite 0) [] =
      makeBatches (Finite 10) xs (Finite 10) [slice xs 0 10]"
    using makeBatches_step [of 0 10 xs "[]"] assms by simp
  also have "\<dots> = makeBatches (Finite 10) xs (Finite 20) [slice xs 0 10, slice xs 10 20]"
    using makeBatches_step [of 10 10 xs "[slice xs 0 10]"] assms by simp
  also have "\<dots> =
      makeBatches (Finite 10) xs (Finite 30) [slice xs 0 10, slice xs 10 20, slice xs 20 30]"
    using makeBatches_step [of 20 10 xs "[slice xs 0 10, slice xs 10 20]"] assms by simp
  also have "\<dots> = Some [slice xs 0 10, slice xs 10 20, slice xs 20 30]"
    using makeBatches_stop [of 30 xs "Finite 10"] assms by simp
  finally show ?thesis .
qed

lemma lengths_25:
  assumes "length xs = 25"
  shows "map length [slice xs 0 10, slice xs 10 20, slice xs 20 30] = [10, 10, 5]"
  using assms by (simp add: slice_def relative_index_def)

text \<open>
  Only the options of the optimizer matter to a price or an estimate, and an estimate
  that succeeds adds one entry to the history.
\<close>

lemma getOptimalGasPrice_options:
  "options this' = options this \<Longrightarrow> getOptimalGasPrice this' p = getOptimalGasPrice this p"
  by (simp add: getOptimalGasPrice_def split: sum.splits)

lemma estimateGasWithBuffer_fst:
  "options this' = options this \<Longrightarrow>
     fst (estimateGasWithBuffer this' p tx) = fst (estimateGasWithBuffer this p tx)"
  by (simp add: estimateGasWithBuffer_def bn_div_100 split: sum.splits)

lemma estimateGasWithBuffer_options:
  "options (snd (estimateGasWithBuffer this p tx)) = options this"
  by (simp add: estimateGasWithBuffer_def bn_div_100 split: sum.splits)

lemma estimateGasWithBuffer_history:
  "fst (estimateGasWithBuffer this p tx) = Inr limit \<Longrightarrow>
     length (gasHistory (snd (estimateGasWithBuffer this p tx))) = Suc (length (gasHistory this))"
  by (simp add: estimateGasWithBuffer_def bn_div_100 split: sum.splits)

lemma annotate_fst:
  assumes "options this' = options this"
  shows "fst (annotate this' txp) = fst (annotate this txp)"
proof (cases txp)
  case (Pair tx p)
  show ?thesis
    using getOptimalGasPrice_options [OF assms, of p] estimateGasWithBuffer_fst [OF assms, of p tx]
    by (auto simp add: annotate_def Pair split: sum.splits prod.splits)
qed

lemma annotate_options: "options (snd (annotate this txp)) = options this"
proof (cases txp)
  case (Pair tx p)
  show ?thesis
    using estimateGasWithBuffer_options [of this p tx]
    by (auto simp add: annotate_def Pair split: sum.splits prod.splits)
qed

lemma annotate_history:
  assumes "fst (annotate this txp) = Inr v"
  shows "length (gasHistory (snd (annotate this txp))) = Suc (length (gasHistory this))"
proof (cases txp)
  case (Pair tx p)
  show ?thesis
    using assms estimateGasWithBuffer_history [of this p tx]
    by (auto simp add: annotate_def Pair split: sum.splits prod.splits)
qed

lemma annotate_success:
  assumes "getOptimalGasPrice this p = Inr price"
    and "fst (estimateGasWithBuffer this p tx) = Inr limit"
  shows "fst (annotate this (tx, p)) =
           Inr (tx(''gasPrice'' \<mapsto> BigNumber price, ''gasLimit'' \<mapsto> BigNumber limit))"
  using assms by (cases "estimateGasWithBuffer this p tx") (simp add: annotate_def)

lemma runBatch_fst:
  "options this' = options this \<Longrightarrow>
     fst (runBatch this' batch) = map (\<lambda>txp. fst (annotate this txp)) batch"
proof (induction batch arbitrary: this')
  case Nil
  then show ?case by simp
next
  case (Cons txp batch)
  have "options (snd (annotate this' txp)) = options this"
    using annotate_options [of this' txp] Cons.prems by simp
  from Cons.IH [OF this] annotate_fst [OF Cons.prems, of txp]
  show ?case by (auto split: prod.splits)
qed

lemma runBatch_options: "options (snd (runBatch this batch)) = options this"
proof (induction batch arbitrary: this)
  case Nil
  then show ?case by simp
next
  case (Cons txp batch)
  from Cons.IH [of "snd (annotate this txp)"] annotate_options [of this txp]
  show ?case by (auto split: prod.splits)
qed

lemma runBatch_history:
  assumes "options this' = options this"
    and "\<forall>txp \<in> set batch. \<exists>v. fst (annotate this txp) = Inr v"
  shows "length (gasHistory (snd (runBatch this' batch))) =
           length (gasHistory this') + length batch"
  using assms
proof (induction batch arbitrary: this')
  case Nil
  then show ?case by simp
next
  case (Cons txp batch)
  from Cons.prems(2) obtain v where "fst (annotate this txp) = Inr v" by auto
  then have "fst (annotate this' txp) = Inr v"
    using annotate_fst [OF Cons.prems(1), of txp] by simp
  then have one: "length (gasHistory (snd (annotate this' txp))) = Suc (length (gasHistory this'))"
    by (rule annotate_history)
  have o: "options (snd (annotate this' txp)) = options this"
    using annotate_options [of this' txp] Cons.prems(1) by simp
  have "\<forall>txp \<in> set batch. \<exists>v. fst (annotate this txp) = Inr v" using Cons.prems(2) by simp
  from Cons.IH [OF o this] one
  show ?case by (auto split: prod.splits)
qed

lemma promise_all_Inr: "promise_all earliest (map Inr vs) = Inr vs"
proof -
  have "rejected (map Inr vs :: (error + 'a) list) = []"
    by (simp add: rejected_def filter_empty_conv)
  moreover have "map projr (map Inr vs :: (error + 'a) list) = vs"
    by (simp add: comp_def)
  ultimately show ?thesis by (simp add: promise_all_def)
qed

lemma all_Inr_map:
  assumes "\<forall>x \<in> set xs. \<exists>v. f x = Inr v"
  shows "\<exists>vs. map f xs = map Inr vs"
  using assms
proof (induction xs)
  case Nil
  then show ?case by simp
next
  case (Cons x xs)
  then obtain v vs where "f x = Inr v" and "map f xs = map Inr vs" by auto
  then have "map f (x # xs) = map Inr (v # vs)" by simp
  then show ?case by blast
qed

text \<open>
  When every member of every batch succeeds, the batches are worked through to the end,
  one \<open>Promise.all\<close> for each batch in the order of the batches, and the results are
  appended in the order of the input.
\<close>

lemma processBatches_success:
  assumes "options this = options this0"
    and "map (\<lambda>txp. fst (annotate this0 txp)) (concat batches) = map Inr vs"
  shows "\<exists>this'. processBatches earliest this batches results rounds =
             (Inr (results @ vs), this', rounds @ map (map fst) batches)
           \<and> options this' = options this0
           \<and> length (gasHistory this') = length (gasHistory this) + length (concat batches)"
  using assms
proof (induction batches arbitrary: this results rounds vs)
  case Nil
  then show ?case by simp
next
  case (Cons batch batches)
  let ?n = "length batch"
  let ?f = "\<lambda>txp. fst (annotate this0 txp)"
  from Cons.prems(2) have
    "map ?f batch @ map ?f (concat batches) = map Inr (take ?n vs) @ map Inr (drop ?n vs)"
    by (simp flip: map_append)
  moreover have "length (map ?f batch) =
      length (map Inr (take ?n vs) :: (error + transaction) list)"
  proof -
    have "length (map ?f (concat (batch # batches))) =
        length (map Inr vs :: (error + transaction) list)"
      using Cons.prems(2) by (rule arg_cong)
    then show ?thesis by simp
  qed
  ultimately have hd: "map ?f batch = map Inr (take ?n vs)"
    and tl: "map ?f (concat batches) = map Inr (drop ?n vs)"
    by simp_all
  obtain rs this1 where run: "runBatch this batch = (rs, this1)"
    by (cases "runBatch this batch")
  have rs: "rs = map Inr (take ?n vs)"
    using runBatch_fst [OF Cons.prems(1), of batch] run hd by simp
  have o1: "options this1 = options this0"
    using runBatch_options [of this batch] run Cons.prems(1) by simp
  have ok: "\<forall>txp \<in> set batch. \<exists>v. ?f txp = Inr v"
  proof
    fix txp
    assume "txp \<in> set batch"
    then have "?f txp \<in> set (map ?f batch)" by simp
    then have "?f txp \<in> set (map Inr (take ?n vs))" by (simp only: hd)
    then show "\<exists>v. ?f txp = Inr v" by auto
  qed
  have h1: "length (gasHistory this1) = length (gasHistory this) + ?n"
    using runBatch_history [OF Cons.prems(1) ok] run by simp
  from Cons.IH [OF o1 tl, of "results @ take ?n vs" "rounds @ [map fst batch]"]
  obtain this' where this':
    "processBatches earliest this1 batches (results @ take ?n vs) (rounds @ [map fst batch]) =
       (Inr ((results @ take ?n vs) @ drop ?n vs), this',
        (rounds @ [map fst batch]) @ map (map fst) batches)"
    "options this' = options this0"
    "length (gasHistory this') = length (gasHistory this1) + length (concat batches)"
    by blast
  have "processBatches earliest this (batch # batches) results rounds =
      (Inr (results @ vs), this', rounds @ map (map fst) (batch # batches))"
    using this'(1) by (simp add: run rs promise_all_Inr)
  moreover have "length (gasHistory this') =
      length (gasHistory this) + length (concat (batch # batches))"
    using this'(3) h1 by simp
  ultimately show ?case using this'(2) by blast
qed

text \<open>
  With a batch size of 0 and an input that is not empty the loop never ends: \<open>i\<close> stays
  0. With a batch size of 2.5 and five transactions \<open>i\<close> takes the values 0, 2.5 and 5,
  and \<open>slice\<close> cuts at 0, 2 and 5.
\<close>

lemma makeBatches_zero_step:
  assumes "makeBatches step xs i acc = Some y"
  shows "\<not> (step = Finite 0 \<and> i = Finite 0 \<and> xs \<noteq> [])"
proof (rule makeBatches.raw_induct
    [where P = "\<lambda>step xs i acc y. \<not> (step = Finite 0 \<and> i = Finite 0 \<and> xs \<noteq> [])",
     OF _ assms])
  fix f :: "number \<Rightarrow> 'a list \<Rightarrow> number \<Rightarrow> 'a list list \<Rightarrow> 'a list list option"
    and step i :: number and xs :: "'a list" and acc y :: "'a list list"
  assume ih: "\<And>step xs i acc y.
      f step xs i acc = Some y \<Longrightarrow> \<not> (step = Finite 0 \<and> i = Finite 0 \<and> xs \<noteq> [])"
    and eq: "(if js_less i (Finite (real (length xs)))
      then f step xs (js_add i step)
             (acc @ [slice xs (to_index (length xs) i) (to_index (length xs) (js_add i step))])
      else Some acc) = Some y"
  show "\<not> (step = Finite 0 \<and> i = Finite 0 \<and> xs \<noteq> [])"
  proof
    assume z: "step = Finite 0 \<and> i = Finite 0 \<and> xs \<noteq> []"
    then have "js_less i (Finite (real (length xs)))" by simp
    moreover have "js_add i step = Finite 0" using z by (simp add: fl_def to_double_def)
    ultimately have "f step xs (Finite 0)
        (acc @ [slice xs (to_index (length xs) i) (to_index (length xs) (Finite 0))]) = Some y"
      using eq by simp
    from ih [OF this] z show False by simp
  qed
qed

lemma makeBatches_zero_None:
  "xs \<noteq> [] \<Longrightarrow> makeBatches (Finite 0) xs (Finite 0) acc = None"
  using makeBatches_zero_step [of "Finite 0" xs "Finite 0" acc]
  by (cases "makeBatches (Finite 0) xs (Finite 0) acc") auto

lemma makeBatches_fractional:
  assumes "length xs = 5"
  shows "makeBatches (Finite (5 / 2)) xs (Finite 0) [] = Some [slice xs 0 2, slice xs 2 5]"
proof -
  have a1: "fl (5 / 2) = Finite (5 / 2)"
    using fl_exact [of "5 / 2" 1] by simp
  have a2: "fl 5 = Finite 5"
    using fl_exact [of 5 0] by simp
  have "makeBatches (Finite (5 / 2)) xs (Finite 0) [] =
      makeBatches (Finite (5 / 2)) xs (Finite (5 / 2)) [slice xs 0 2]"
    by (subst makeBatches.simps) (simp add: assms a1 to_index_def)
  also have "\<dots> = makeBatches (Finite (5 / 2)) xs (Finite 5) [slice xs 0 2, slice xs 2 5]"
    by (subst makeBatches.simps) (simp add: assms a2 to_index_def)
  also have "\<dots> = Some [slice xs 0 2, slice xs 2 5]"
    by (subst makeBatches.simps) (simp add: assms)
  finally show ?thesis .
qed

text \<open>
  Claim C4, as amended. Let the batch size be a whole number of at least 1, let the
  length of the input and the batch size together stay below \<open>2^53\<close>, and let the price
  and the buffered gas estimate succeed for every transaction of the input. Then
  \<open>batchTransactions\<close> returns. The groups whose promises it joined with \<open>Promise.all\<close>,
  in the order in which it joined them (\<open>rounds\<close>), are the input cut into contiguous
  pieces in the order of the input: none is empty, none is longer than the batch size,
  and all but the last are as long as the batch size; 25 transactions with a batch size
  of 10 are processed as groups of 10, 10 and 5. It returns as many results as there
  are transactions, and the result at each position is the transaction at that position
  with its \<open>gasPrice\<close> and its \<open>gasLimit\<close> added. The options are left as they were and
  the history has one new entry for each transaction.
\<close>

theorem batchTransactions_order_and_length:
  assumes "batchSize (options this) \<in> \<int>" and "1 \<le> batchSize (options this)"
    and "real (length transactions) + batchSize (options this) < 2 ^ 53"
    and "\<forall>txp \<in> set transactions.
           (\<exists>price. getOptimalGasPrice this (snd txp) = Inr price)
         \<and> (\<exists>limit. fst (estimateGasWithBuffer this (snd txp) (fst txp)) = Inr limit)"
  shows "\<exists>results this' rounds.
       batchTransactions earliest this transactions = Some (Inr results, this', rounds)
     \<and> concat rounds = map fst transactions
     \<and> (\<forall>r \<in> set rounds. r \<noteq> [] \<and> real (length r) \<le> batchSize (options this))
     \<and> (\<forall>r \<in> set (butlast rounds). real (length r) = batchSize (options this))
     \<and> (length transactions = 25 \<and> batchSize (options this) = 10 \<longrightarrow>
          map length rounds = [10, 10, 5])
     \<and> length results = length transactions
     \<and> (\<forall>k < length transactions. \<exists>price limit.
           getOptimalGasPrice this (snd (transactions ! k)) = Inr price
         \<and> fst (estimateGasWithBuffer this (snd (transactions ! k)) (fst (transactions ! k)))
             = Inr limit
         \<and> results ! k = (fst (transactions ! k))
             (''gasPrice'' \<mapsto> BigNumber price, ''gasLimit'' \<mapsto> BigNumber limit))
     \<and> options this' = options this
     \<and> length (gasHistory this') = length (gasHistory this) + length transactions"
proof -
  let ?f = "\<lambda>txp. fst (annotate this txp)"
  from assms(1) obtain S :: int where S: "batchSize (options this) = of_int S"
    by (auto elim: Ints_cases)
  have "real_of_int 1 \<le> real_of_int S" using assms(2) S by simp
  then have S1: "1 \<le> S" by (simp only: of_int_le_iff)
  have "real_of_int (int (length transactions) + S) < real_of_int (2 ^ 53)"
    using assms(3) S by simp
  then have S3: "int (length transactions) + S < 2 ^ 53" by (simp only: of_int_less_iff)
  have "real_of_int S < 2 ^ (53 - 0)" using assms(3) S by simp
  then have step: "fl (batchSize (options this)) = Finite (of_int S)"
    unfolding S using S1 by (intro fl_exact [where j = 0]) simp_all
  from makeBatches_Some [OF S1 _ S3, of 0 "[]"]
  obtain batches where batches:
    "makeBatches (Finite (of_int S)) transactions (Finite 0) [] = Some batches"
    "concat batches = transactions"
    "\<forall>b \<in> set batches. b \<noteq> [] \<and> int (length b) \<le> S"
    "\<forall>b \<in> set (butlast batches). int (length b) = S"
    by auto
  let ?rounds = "map (map fst) batches"
  have each: "\<exists>price limit.
           getOptimalGasPrice this (snd txp) = Inr price
         \<and> fst (estimateGasWithBuffer this (snd txp) (fst txp)) = Inr limit
         \<and> ?f txp = Inr ((fst txp)
             (''gasPrice'' \<mapsto> BigNumber price, ''gasLimit'' \<mapsto> BigNumber limit))"
    if "txp \<in> set transactions" for txp
  proof -
    from assms(4) that obtain price limit
      where p: "getOptimalGasPrice this (snd txp) = Inr price"
        and l: "fst (estimateGasWithBuffer this (snd txp) (fst txp)) = Inr limit"
      by blast
    from annotate_success [OF p l] have "?f txp = Inr ((fst txp)
             (''gasPrice'' \<mapsto> BigNumber price, ''gasLimit'' \<mapsto> BigNumber limit))"
      by simp
    with p l show ?thesis by blast
  qed
  then have "\<forall>txp \<in> set transactions. \<exists>v. ?f txp = Inr v" by blast
  from all_Inr_map [OF this] obtain results
    where results: "map ?f transactions = map Inr results" by blast
  then have "map ?f (concat batches) = map Inr results" by (simp add: batches(2))
  from processBatches_success [OF refl this, of earliest "[]" "[]"]
  obtain this' where this':
    "processBatches earliest this batches [] [] = (Inr results, this', ?rounds)"
    "options this' = options this"
    "length (gasHistory this') = length (gasHistory this) + length (concat batches)"
    by auto
  have run: "batchTransactions earliest this transactions = Some (Inr results, this', ?rounds)"
    by (simp add: batchTransactions_def step batches(1) this'(1))
  have cat: "concat ?rounds = map fst transactions"
    by (simp add: map_concat [symmetric] batches(2))
  have short: "\<forall>r \<in> set ?rounds. r \<noteq> [] \<and> real (length r) \<le> batchSize (options this)"
  proof
    fix r
    assume "r \<in> set ?rounds"
    then obtain b where b: "b \<in> set batches" and r: "r = map fst b" by auto
    from batches(3) b have "b \<noteq> []" and "int (length b) \<le> S" by simp_all
    then have "r \<noteq> []" and "real_of_int (int (length r)) \<le> real_of_int S"
      by (simp_all add: r)
    then show "r \<noteq> [] \<and> real (length r) \<le> batchSize (options this)"
      by (simp add: S)
  qed
  have full: "\<forall>r \<in> set (butlast ?rounds). real (length r) = batchSize (options this)"
  proof
    fix r
    assume "r \<in> set (butlast ?rounds)"
    then have "r \<in> set (map (map fst) (butlast batches))" by (simp only: map_butlast)
    then obtain b where b: "b \<in> set (butlast batches)" and r: "r = map fst b" by auto
    from batches(4) b have "int (length b) = S" by simp
    then have "real_of_int (int (length r)) = real_of_int S" by (simp add: r)
    then show "real (length r) = batchSize (options this)" by (simp add: S)
  qed
  have len: "length results = length transactions"
    using results by (metis length_map)
  have nth: "\<exists>price limit.
           getOptimalGasPrice this (snd (transactions ! k)) = Inr price
         \<and> fst (estimateGasWithBuffer this (snd (transactions ! k)) (fst (transactions ! k)))
             = Inr limit
         \<and> results ! k = (fst (transactions ! k))
             (''gasPrice'' \<mapsto> BigNumber price, ''gasLimit'' \<mapsto> BigNumber limit)"
    if k: "k < length transactions" for k
  proof -
    have "map ?f transactions ! k = map Inr results ! k" by (simp add: results)
    then have "?f (transactions ! k) = Inr (results ! k)" using k len by simp
    with each [of "transactions ! k"] k show ?thesis by auto
  qed
  have scenario: "map length ?rounds = [10, 10, 5]"
    if "length transactions = 25 \<and> batchSize (options this) = 10"
  proof -
    from that S have "real_of_int S = real_of_int 10" by simp
    then have "S = 10" by (simp only: of_int_eq_iff)
    with batches(1) makeBatches_25 [of transactions] that
    have "batches = [slice transactions 0 10, slice transactions 10 20, slice transactions 20 30]"
      by simp
    with lengths_25 [of transactions] that show ?thesis by simp
  qed
  have history: "length (gasHistory this') = length (gasHistory this) + length transactions"
    using this'(3) by (simp add: batches(2))
  show ?thesis
    apply (rule exI [of _ results])
    apply (rule exI [of _ this'])
    apply (rule exI [of _ ?rounds])
    apply (intro conjI)
            apply (rule run)
           apply (rule cat)
          apply (rule short)
         apply (rule full)
        apply (rule impI)
        apply (erule scenario)
       apply (rule len)
      apply (intro allI impI)
      apply (erule nth)
     apply (rule this'(2))
    apply (rule history)
    done
qed

text \<open>
  The scenario of the claim: 25 transactions, told apart by their nonce, with a batch
  size of 10. The provider answers 1 gwei, a half full block and 21000 gas each time.
  No promise is rejected, so nothing is asked of \<open>earliest\<close>, taken here as \<open>hd\<close>.
\<close>

theorem batchTransactions_order_and_length_witness:
  "batchSize (options
      \<lparr>options = \<lparr>maxGasPrice = 20000000000, gasBuffer = 11 / 10, batchSize = 10\<rparr>,
       gasHistory = []\<rparr>) \<in> \<int>
   \<and> 1 \<le> batchSize (options
      \<lparr>options = \<lparr>maxGasPrice = 20000000000, gasBuffer = 11 / 10, batchSize = 10\<rparr>,
       gasHistory = []\<rparr>)
   \<and> (\<exists>results this' rounds.
        batchTransactions hd
          \<lparr>options = \<lparr>maxGasPrice = 20000000000, gasBuffer = 11 / 10, batchSize = 10\<rparr>,
           gasHistory = []\<rparr>
          (map (\<lambda>k. ([''nonce'' \<mapsto> BigNumber (int k)],
             \<lparr>getGasPrice = Inr 1000000000, getGasPriceAgain = Inr 1000000000,
              getBlock = Inr \<lparr>gasUsed = 15000000, gasLimit = 30000000\<rparr>,
              estimateGas = (\<lambda>tx. Inr 21000), now = k\<rparr>)) [0..<25])
          = Some (Inr results, this', rounds)
      \<and> concat rounds = map (\<lambda>k. [''nonce'' \<mapsto> BigNumber (int k)]) [0..<25]
      \<and> map length rounds = [10, 10, 5]
      \<and> length results = 25
      \<and> results ! 24 = [''nonce'' \<mapsto> BigNumber 24, ''gasPrice'' \<mapsto> BigNumber 900000000,
                         ''gasLimit'' \<mapsto> BigNumber 23100]
      \<and> length (gasHistory this') = 25)"
proof -
  define eng where "eng =
    \<lparr>options = \<lparr>maxGasPrice = 20000000000, gasBuffer = 11 / 10, batchSize = 10\<rparr>,
     gasHistory = []\<rparr>"
  define p where "p = (\<lambda>k.
    \<lparr>getGasPrice = Inr 1000000000, getGasPriceAgain = Inr 1000000000,
     getBlock = Inr \<lparr>gasUsed = 15000000, gasLimit = 30000000\<rparr>,
     estimateGas = (\<lambda>tx. Inr 21000), now = k\<rparr>)"
  define tx where "tx = (\<lambda>k. [''nonce'' \<mapsto> BigNumber (int k)])"
  define txs where "txs = map (\<lambda>k. (tx k, p k)) [0..<25]"
  have whole: "batchSize (options eng) \<in> \<int>" by (simp add: eng_def)
  have size: "1 \<le> batchSize (options eng)" by (simp add: eng_def)
  have ten: "batchSize (options eng) = 10" by (simp add: eng_def)
  have len: "length txs = 25" by (simp add: txs_def)
  have range: "real (length txs) + batchSize (options eng) < 2 ^ 53" by (simp add: len ten)
  have price: "getOptimalGasPrice eng (p k) = Inr 900000000" for k
    by (simp add: eng_def p_def getOptimalGasPrice_def getNetworkCongestion_def
        adjustedGasPrice_def bn_div_def capped_def)
  have limit: "fst (estimateGasWithBuffer eng (p k) t) = Inr 23100" for k t
    by (simp add: eng_def p_def estimateGasWithBuffer_def bn_div_def number_eval)
  have nth: "txs ! 24 = (tx 24, p 24)" by (simp add: txs_def)
  have firsts: "map fst txs = map tx [0..<25]" by (simp add: txs_def comp_def)
  have history: "length (gasHistory eng) = 0" by (simp add: eng_def)
  have ok: "\<forall>txp \<in> set txs.
           (\<exists>price. getOptimalGasPrice eng (snd txp) = Inr price)
         \<and> (\<exists>limit. fst (estimateGasWithBuffer eng (snd txp) (fst txp)) = Inr limit)"
    using price limit by (auto simp add: txs_def)
  from batchTransactions_order_and_length [OF whole size range ok, of hd]
  obtain results this' rounds where r:
    "batchTransactions hd eng txs = Some (Inr results, this', rounds)
     \<and> concat rounds = map fst txs
     \<and> (\<forall>r \<in> set rounds. r \<noteq> [] \<and> real (length r) \<le> batchSize (options eng))
     \<and> (\<forall>r \<in> set (butlast rounds). real (length r) = batchSize (options eng))
     \<and> (length txs = 25 \<and> batchSize (options eng) = 10 \<longrightarrow>
          map length rounds = [10, 10, 5])
     \<and> length results = length txs
     \<and> (\<forall>k < length txs. \<exists>price limit.
           getOptimalGasPrice eng (snd (txs ! k)) = Inr price
         \<and> fst (estimateGasWithBuffer eng (snd (txs ! k)) (fst (txs ! k)))
             = Inr limit
         \<and> results ! k = (fst (txs ! k))
             (''gasPrice'' \<mapsto> BigNumber price, ''gasLimit'' \<mapsto> BigNumber limit))
     \<and> options this' = options eng
     \<and> length (gasHistory this') = length (gasHistory eng) + length txs"
    by (elim exE) (rule that)
  from r have r1: "batchTransactions hd eng txs = Some (Inr results, this', rounds)"
    by (elim conjE)
  from r have r2: "concat rounds = map tx [0..<25]" by (simp add: firsts)
  from r have r3: "map length rounds = [10, 10, 5]" by (simp add: ten len)
  from r have r4: "length results = 25" by (simp add: len)
  from r have "\<exists>price limit.
           getOptimalGasPrice eng (snd (txs ! 24)) = Inr price
         \<and> fst (estimateGasWithBuffer eng (snd (txs ! 24)) (fst (txs ! 24)))
             = Inr limit
         \<and> results ! 24 = (fst (txs ! 24))
             (''gasPrice'' \<mapsto> BigNumber price, ''gasLimit'' \<mapsto> BigNumber limit)"
    by (simp add: len)
  then have "results ! 24 =
      (tx 24)(''gasPrice'' \<mapsto> BigNumber 900000000, ''gasLimit'' \<mapsto> BigNumber 23100)"
    using price [of 24] limit [of 24 "tx 24"] by (auto simp add: nth)
  then have r5: "results ! 24 =
      [''nonce'' \<mapsto> BigNumber 24, ''gasPrice'' \<mapsto> BigNumber 900000000,
       ''gasLimit'' \<mapsto> BigNumber 23100]"
    by (simp add: tx_def)
  from r have r6: "length (gasHistory this') = 25" by (simp add: len history)
  have "batchSize (options eng) \<in> \<int>
     \<and> 1 \<le> batchSize (options eng)
     \<and> (\<exists>results this' rounds.
          batchTransactions hd eng txs = Some (Inr results, this', rounds)
        \<and> concat rounds = map tx [0..<25]
        \<and> map length rounds = [10, 10, 5]
        \<and> length results = 25
        \<and> results ! 24 = [''nonce'' \<mapsto> BigNumber 24, ''gasPrice'' \<mapsto> BigNumber 900000000,
                           ''gasLimit'' \<mapsto> BigNumber 23100]
        \<and> length (gasHistory this') = 25)"
    apply (intro conjI)
      apply (rule whole)
     apply (rule size)
    apply (rule exI [of _ results])
    apply (rule exI [of _ this'])
    apply (rule exI [of _ rounds])
    apply (intro conjI)
         apply (rule r1)
        apply (rule r2)
       apply (rule r3)
      apply (rule r4)
     apply (rule r5)
    apply (rule r6)
    done
  then show ?thesis
    unfolding txs_def tx_def p_def eng_def .
qed

text \<open>
  Claim C4 as stated fails for other batch sizes, which the constructor accepts: with a
  batch size of 0 and one transaction \<open>batchTransactions\<close> never returns, and with a
  batch size of 2.5 five transactions are processed as groups of 2 and 3, the second
  one longer than the batch size.
\<close>

theorem batchTransactions_other_batch_sizes:
  "batchTransactions hd
     \<lparr>options = \<lparr>maxGasPrice = 20000000000, gasBuffer = 11 / 10, batchSize = 0\<rparr>,
      gasHistory = []\<rparr>
     [([''nonce'' \<mapsto> BigNumber 0],
       \<lparr>getGasPrice = Inr 1000000000, getGasPriceAgain = Inr 1000000000,
        getBlock = Inr \<lparr>gasUsed = 15000000, gasLimit = 30000000\<rparr>,
        estimateGas = (\<lambda>tx. Inr 21000), now = 0\<rparr>)] = None
   \<and> (\<exists>results this' rounds.
        batchTransactions hd
          \<lparr>options = \<lparr>maxGasPrice = 20000000000, gasBuffer = 11 / 10, batchSize = 5 / 2\<rparr>,
           gasHistory = []\<rparr>
          (map (\<lambda>k. ([''nonce'' \<mapsto> BigNumber (int k)],
             \<lparr>getGasPrice = Inr 1000000000, getGasPriceAgain = Inr 1000000000,
              getBlock = Inr \<lparr>gasUsed = 15000000, gasLimit = 30000000\<rparr>,
              estimateGas = (\<lambda>tx. Inr 21000), now = k\<rparr>)) [0..<5])
          = Some (Inr results, this', rounds)
      \<and> map length rounds = [2, 3])"
proof -
  define p where "p = (\<lambda>k.
    \<lparr>getGasPrice = Inr 1000000000, getGasPriceAgain = Inr 1000000000,
     getBlock = Inr \<lparr>gasUsed = 15000000, gasLimit = 30000000\<rparr>,
     estimateGas = (\<lambda>tx. Inr 21000), now = k\<rparr>)"
  define tx where "tx = (\<lambda>k. [''nonce'' \<mapsto> BigNumber (int k)])"
  define zero where "zero =
    \<lparr>options = \<lparr>maxGasPrice = 20000000000, gasBuffer = 11 / 10, batchSize = 0\<rparr>,
     gasHistory = []\<rparr>"
  define eng where "eng =
    \<lparr>options = \<lparr>maxGasPrice = 20000000000, gasBuffer = 11 / 10, batchSize = 5 / 2\<rparr>,
     gasHistory = []\<rparr>"
  define txs where "txs = map (\<lambda>k. (tx k, p k)) [0..<5]"
  have "fl (batchSize (options zero)) = Finite 0"
    by (simp add: zero_def fl_def to_double_def)
  then have never: "batchTransactions hd zero [(tx 0, p 0)] = None"
    by (simp add: batchTransactions_def makeBatches_zero_None)
  have step: "fl (batchSize (options eng)) = Finite (5 / 2)"
    using fl_exact [of "5 / 2" 1] by (simp add: eng_def)
  have len: "length txs = 5" by (simp add: txs_def)
  let ?batches = "[slice txs 0 2, slice txs 2 5]"
  have batches: "makeBatches (Finite (5 / 2)) txs (Finite 0) [] = Some ?batches"
    by (rule makeBatches_fractional [OF len])
  have cat: "concat ?batches = txs"
    by (simp add: slice_def relative_index_def len)
  have price: "getOptimalGasPrice eng (p k) = Inr 900000000" for k
    by (simp add: eng_def p_def getOptimalGasPrice_def getNetworkCongestion_def
        adjustedGasPrice_def bn_div_def capped_def)
  have limit: "fst (estimateGasWithBuffer eng (p k) t) = Inr 23100" for k t
    by (simp add: eng_def p_def estimateGasWithBuffer_def bn_div_def number_eval)
  have "\<forall>txp \<in> set txs. \<exists>v. fst (annotate eng txp) = Inr v"
    using annotate_success [OF price limit] by (auto simp add: txs_def)
  from all_Inr_map [OF this] obtain results
    where "map (\<lambda>txp. fst (annotate eng txp)) txs = map Inr results" by blast
  then have "map (\<lambda>txp. fst (annotate eng txp)) (concat ?batches) = map Inr results"
    by (simp only: cat)
  from processBatches_success [OF refl this, of hd "[]" "[]"]
  obtain this' where
    "processBatches hd eng ?batches [] [] = (Inr results, this', map (map fst) ?batches)"
    by auto
  then have run: "batchTransactions hd eng txs =
      Some (Inr results, this', map (map fst) ?batches)"
    by (simp add: batchTransactions_def step batches)
  have lengths: "map length (map (map fst) ?batches) = [2, 3]"
    by (simp add: slice_def relative_index_def len)
  have "batchTransactions hd zero [(tx 0, p 0)] = None
     \<and> (\<exists>results this' rounds.
          batchTransactions hd eng txs = Some (Inr results, this', rounds)
        \<and> map length rounds = [2, 3])"
    apply (intro conjI)
     apply (rule never)
    apply (rule exI [of _ results])
    apply (rule exI [of _ this'])
    apply (rule exI [of _ "map (map fst) ?batches"])
    apply (intro conjI)
     apply (rule run)
    apply (rule lengths)
    done
  then show ?thesis
    unfolding txs_def tx_def p_def eng_def zero_def by simp
qed

end
